theory Spec2Isabelle
  imports Main "HOL-Library.Multiset" "HOL-Library.Word"
begin

unbundle bit_operations_syntax

section \<open>pkg/utils: order-independent comparison of string slices\<close>

text \<open>
  \<^verbatim>\<open>StringSlicesEqual\<close> keeps a \<^verbatim>\<open>map[string]int\<close> of counters. A Go map
  read at a missing key yields the zero value, so the counters are a total function
  that is \<open>0\<close> wherever nothing was stored.
\<close>

type_synonym counts = "string \<Rightarrow> int"

text \<open>The first loop: \<^verbatim>\<open>for _, val := range a { counts[val]++ }\<close>.\<close>

fun countUp :: "counts \<Rightarrow> string list \<Rightarrow> counts" where
  "countUp counts [] = counts"
| "countUp counts (val # a) = countUp (counts(val := counts val + 1)) a"

text \<open>
  The second loop: \<^verbatim>\<open>counts[val]--\<close>, returning \<^verbatim>\<open>false\<close> as soon as a counter
  drops below zero; \<^verbatim>\<open>true\<close> when the range over \<^verbatim>\<open>b\<close> is exhausted.
\<close>

fun countDown :: "counts \<Rightarrow> string list \<Rightarrow> bool" where
  "countDown counts [] = True"
| "countDown counts (val # b) =
     (let counts' = counts(val := counts val - 1)
      in if counts' val < 0 then False else countDown counts' b)"

definition StringSlicesEqual :: "string list \<Rightarrow> string list \<Rightarrow> bool" where
  "StringSlicesEqual a b =
     (if length a \<noteq> length b then False
      else countDown (countUp (\<lambda>_. 0) a) b)"

section \<open>cmd/config and the door registry\<close>

text \<open>
  One configured door. \<^verbatim>\<open>pollUacStates\<close> and \<^verbatim>\<open>getDoorByHubitatID\<close> test
  \<^verbatim>\<open>HubitatLockID\<close> against \<^verbatim>\<open>nil\<close> and dereference it, so the lock device is
  optional: \<open>None\<close> is the nil pointer.
\<close>

record Door =
  UacID :: string
  HubitatContactID :: string
  HubitatLockID :: "string option"
  HubitatSwitchID :: string

text \<open>\<^verbatim>\<open>getDoorByUacID\<close>: the first door of \<^verbatim>\<open>appConfig.Doors\<close> with that id.\<close>

fun getDoorByUacID :: "Door list \<Rightarrow> string \<Rightarrow> Door option" where
  "getDoorByUacID [] uacID = None"
| "getDoorByUacID (d # ds) uacID =
     (if UacID d = uacID then Some d else getDoorByUacID ds uacID)"

section \<open>Outbound calls, logs and the outside world\<close>

text \<open>
  Every request the two REST clients send is recorded, in order, in \<open>calls\<close>. The
  request and response plumbing itself (URLs, HTTP status, JSON decoding) is not
  modelled: what a request returns is read from \<open>world\<close>, which answers from the
  requests sent so far, so that the same request may be answered differently later.
\<close>

datatype call =
    HubGetDeviceInfo string
  | HubSendDeviceCommand string string string
  | UacFetchAllDoors
  | UacFetchDoor string
  | UacPutUnlock string
  | UacGetDoorLockRule string
  | UacPutLockRule string string


datatype level = LevelInfo | LevelWarn | LevelError

record state =
  calls :: "call list"
  logs :: "(level \<times> string) list"

definition logger :: "level \<Rightarrow> string \<Rightarrow> state \<Rightarrow> state" where
  "logger lvl msg s = s\<lparr>logs := logs s @ [(lvl, msg)]\<rparr>"

definition request :: "call \<Rightarrow> state \<Rightarrow> state" where
  "request c s = s\<lparr>calls := calls s @ [c]\<rparr>"

section \<open>internal/hubitat: the hub client\<close>

text \<open>
  A value of Go's \<^verbatim>\<open>any\<close> decoded from JSON. Comparing it with a string is true
  only for a string of the same contents, so all other dynamic types are one case.
\<close>

datatype any = AnyString string | AnyOther

record DeviceInfo =
  ID :: string
  Type :: string
  Attributes :: "(string \<rightharpoonup> any) list"
  Capabilities :: "any list"
  Commands :: "string list"

text \<open>
  \<^verbatim>\<open>capability == capabilityName\<close> compares an \<^verbatim>\<open>any\<close> with a string; a map read
  at a missing key yields the nil \<^verbatim>\<open>any\<close>, which equals no string.
\<close>

definition anyEq :: "any option \<Rightarrow> string \<Rightarrow> bool" where
  "anyEq v str = (v = Some (AnyString str))"

fun hasCapabilityLoop :: "any list \<Rightarrow> string \<Rightarrow> bool" where
  "hasCapabilityLoop [] capabilityName = False"
| "hasCapabilityLoop (capability # rest) capabilityName =
     (if anyEq (Some capability) capabilityName then True
      else hasCapabilityLoop rest capabilityName)"

definition hasCapability :: "DeviceInfo \<Rightarrow> string \<Rightarrow> bool" where
  "hasCapability deviceInfo capabilityName =
     hasCapabilityLoop (Capabilities deviceInfo) capabilityName"

fun hasCommandLoop :: "string list \<Rightarrow> string \<Rightarrow> bool" where
  "hasCommandLoop [] commandName = False"
| "hasCommandLoop (command # rest) commandName =
     (if command = commandName then True else hasCommandLoop rest commandName)"

definition hasCommand :: "DeviceInfo \<Rightarrow> string \<Rightarrow> bool" where
  "hasCommand deviceInfo commandName = hasCommandLoop (Commands deviceInfo) commandName"

text \<open>
  The errors \<^verbatim>\<open>assertDeviceState\<close> returns, one constructor for each
  \<^verbatim>\<open>fmt.Errorf\<close> of the function; the string of the first and last is the message
  of the wrapped error.
\<close>

datatype hub_error =
    GetDeviceInfoFailed string string
  | NoCapability string string
  | NoCommand string string
  | SendCommandFailed string string string

record hub =
  getDeviceInfoResponse :: "call list \<Rightarrow> string \<Rightarrow> string + DeviceInfo"
  sendDeviceCommandResponse :: "call list \<Rightarrow> string \<Rightarrow> string \<Rightarrow> string \<Rightarrow> string option"

definition GetDeviceInfo :: "hub \<Rightarrow> string \<Rightarrow> state \<Rightarrow> (string + DeviceInfo) \<times> state" where
  "GetDeviceInfo c deviceID s =
     (getDeviceInfoResponse c (calls s) deviceID, request (HubGetDeviceInfo deviceID) s)"

definition sendDeviceCommand ::
  "hub \<Rightarrow> string \<Rightarrow> string \<Rightarrow> string \<Rightarrow> state \<Rightarrow> string option \<times> state" where
  "sendDeviceCommand c deviceID command secondaryValue s =
     (sendDeviceCommandResponse c (calls s) deviceID command secondaryValue,
      request (HubSendDeviceCommand deviceID command secondaryValue) s)"

text \<open>
  The loop over \<^verbatim>\<open>deviceInfo.Attributes\<close>: \<open>True\<close> is its
  \<^verbatim>\<open>return nil // Already in desired state\<close>.
\<close>

fun alreadyInDesiredState :: "(string \<rightharpoonup> any) list \<Rightarrow> string \<Rightarrow> string \<Rightarrow> bool" where
  "alreadyInDesiredState [] attributeName desiredValue = False"
| "alreadyInDesiredState (attr # rest) attributeName desiredValue =
     (if anyEq (attr ''name'') attributeName \<and> anyEq (attr ''currentValue'') desiredValue
      then True
      else alreadyInDesiredState rest attributeName desiredValue)"

definition assertDeviceState ::
  "hub \<Rightarrow> string \<Rightarrow> string \<Rightarrow> string \<Rightarrow> string \<Rightarrow> string \<Rightarrow> state
     \<Rightarrow> hub_error option \<times> state" where
  "assertDeviceState c deviceID capability command attributeName desiredValue s =
     (case GetDeviceInfo c deviceID s of
        (Inl err, s1) \<Rightarrow> (Some (GetDeviceInfoFailed deviceID err), s1)
      | (Inr deviceInfo, s1) \<Rightarrow>
          if \<not> hasCapability deviceInfo capability
          then (Some (NoCapability deviceID capability), s1)
          else if \<not> hasCommand deviceInfo command
          then (Some (NoCommand deviceID command), s1)
          else if alreadyInDesiredState (Attributes deviceInfo) attributeName desiredValue
          then (None, s1)
          else (case sendDeviceCommand c deviceID command [] s1 of
                  (Some err, s2) \<Rightarrow> (Some (SendCommandFailed command deviceID err), s2)
                | (None, s2) \<Rightarrow> (None, s2)))"

definition AssertDoorContactOpened :: "hub \<Rightarrow> string \<Rightarrow> state \<Rightarrow> hub_error option \<times> state" where
  "AssertDoorContactOpened c doorID =
     assertDeviceState c doorID ''ContactSensor'' ''open'' ''contact'' ''open''"

definition AssertDoorContactClosed :: "hub \<Rightarrow> string \<Rightarrow> state \<Rightarrow> hub_error option \<times> state" where
  "AssertDoorContactClosed c doorID =
     assertDeviceState c doorID ''ContactSensor'' ''close'' ''contact'' ''close''"

definition AssertDoorLockUnlocked :: "hub \<Rightarrow> string \<Rightarrow> state \<Rightarrow> hub_error option \<times> state" where
  "AssertDoorLockUnlocked c doorID =
     assertDeviceState c doorID ''Lock'' ''unlock'' ''lock'' ''unlocked''"

definition AssertDoorLockLocked :: "hub \<Rightarrow> string \<Rightarrow> state \<Rightarrow> hub_error option \<times> state" where
  "AssertDoorLockLocked c doorID =
     assertDeviceState c doorID ''Lock'' ''lock'' ''lock'' ''locked''"

definition AssertDoorSwitchOn :: "hub \<Rightarrow> string \<Rightarrow> state \<Rightarrow> hub_error option \<times> state" where
  "AssertDoorSwitchOn c doorID =
     assertDeviceState c doorID ''Switch'' ''on'' ''switch'' ''on''"

definition AssertDoorSwitchOff :: "hub \<Rightarrow> string \<Rightarrow> state \<Rightarrow> hub_error option \<times> state" where
  "AssertDoorSwitchOff c doorID =
     assertDeviceState c doorID ''Switch'' ''off'' ''switch'' ''off''"

section \<open>internal/uac: the Access controller client\<close>

text \<open>
  \<^verbatim>\<open>uac.Door\<close> and \<^verbatim>\<open>uac.DoorLockRule\<close>. The rule's \<^verbatim>\<open>EndedTime\<close> is a float that
  no function reads; it is left out.
\<close>

record uac_Door =
  DoorLockRelayStatus :: string
  DoorPositionStatus :: string
  FloorID :: string
  FullName :: string
  DoorID :: string
  IsBindHub :: bool
  Name :: string
  DoorType :: string

record DoorLockRule =
  RuleType :: string

text \<open>
  What a PUT request ends with: \<^verbatim>\<open>putRequest\<close> fails, the body does not decode,
  or it decodes to a \<^verbatim>\<open>Response\<close> with its \<^verbatim>\<open>Code\<close> and \<^verbatim>\<open>Msg\<close>.
\<close>

datatype put_response = PutFailed string | PutUndecodable string | PutDecoded string string


record uac =
  fetchAllDoorsResponse :: "call list \<Rightarrow> string + uac_Door list"
  fetchDoorResponse :: "call list \<Rightarrow> string \<Rightarrow> string + uac_Door"
  getDoorLockRuleResponse :: "call list \<Rightarrow> string \<Rightarrow> string + DoorLockRule"
  putUnlockResponse :: "call list \<Rightarrow> string \<Rightarrow> put_response"
  putLockRuleResponse :: "call list \<Rightarrow> string \<Rightarrow> string \<Rightarrow> put_response"

definition FetchAllDoors :: "uac \<Rightarrow> state \<Rightarrow> (string + uac_Door list) \<times> state" where
  "FetchAllDoors c s = (fetchAllDoorsResponse c (calls s), request UacFetchAllDoors s)"


definition GetDoorLockRule :: "uac \<Rightarrow> string \<Rightarrow> state \<Rightarrow> (string + DoorLockRule) \<times> state" where
  "GetDoorLockRule c doorID s =
     (getDoorLockRuleResponse c (calls s) doorID, request (UacGetDoorLockRule doorID) s)"






section \<open>crypto/sha256 and crypto/hmac\<close>

text \<open>
  \<^verbatim>\<open>computeSignature\<close> calls \<^verbatim>\<open>hmac.New(sha256.New, key)\<close> of the standard library.
  SHA-256 is written after FIPS 180-4 on 32-bit words, HMAC after RFC 2104 with the
  64-byte block of SHA-256. Bytes are \<open>char\<close>s, as in Go strings.
\<close>

type_synonym u32 = "32 word"

type_synonym digest_state = "u32 \<times> u32 \<times> u32 \<times> u32 \<times> u32 \<times> u32 \<times> u32 \<times> u32"

definition rotr :: "nat \<Rightarrow> u32 \<Rightarrow> u32" where
  "rotr n x = drop_bit n x OR push_bit (32 - n) x"

definition K256 :: "u32 list" where
  "K256 =
    [0x428A2F98, 0x71374491, 0xB5C0FBCF, 0xE9B5DBA5, 0x3956C25B, 0x59F111F1,
     0x923F82A4, 0xAB1C5ED5, 0xD807AA98, 0x12835B01, 0x243185BE, 0x550C7DC3,
     0x72BE5D74, 0x80DEB1FE, 0x9BDC06A7, 0xC19BF174, 0xE49B69C1, 0xEFBE4786,
     0x0FC19DC6, 0x240CA1CC, 0x2DE92C6F, 0x4A7484AA, 0x5CB0A9DC, 0x76F988DA,
     0x983E5152, 0xA831C66D, 0xB00327C8, 0xBF597FC7, 0xC6E00BF3, 0xD5A79147,
     0x06CA6351, 0x14292967, 0x27B70A85, 0x2E1B2138, 0x4D2C6DFC, 0x53380D13,
     0x650A7354, 0x766A0ABB, 0x81C2C92E, 0x92722C85, 0xA2BFE8A1, 0xA81A664B,
     0xC24B8B70, 0xC76C51A3, 0xD192E819, 0xD6990624, 0xF40E3585, 0x106AA070,
     0x19A4C116, 0x1E376C08, 0x2748774C, 0x34B0BCB5, 0x391C0CB3, 0x4ED8AA4A,
     0x5B9CCA4F, 0x682E6FF3, 0x748F82EE, 0x78A5636F, 0x84C87814, 0x8CC70208,
     0x90BEFFFA, 0xA4506CEB, 0xBEF9A3F7, 0xC67178F2]"

definition init256 :: digest_state where
  "init256 =
    (0x6A09E667, 0xBB67AE85, 0x3C6EF372, 0xA54FF53A,
     0x510E527F, 0x9B05688C, 0x1F83D9AB, 0x5BE0CD19)"

definition be32 :: "char \<Rightarrow> char \<Rightarrow> char \<Rightarrow> char \<Rightarrow> u32" where
  "be32 a b c d =
     push_bit 24 (of_char a) OR push_bit 16 (of_char b) OR push_bit 8 (of_char c) OR of_char d"

fun words_of :: "char list \<Rightarrow> u32 list" where
  "words_of (a # b # c # d # r) = be32 a b c d # words_of r"
| "words_of r = []"

definition ssig0 :: "u32 \<Rightarrow> u32" where
  "ssig0 x = rotr 7 x XOR rotr 18 x XOR drop_bit 3 x"

definition ssig1 :: "u32 \<Rightarrow> u32" where
  "ssig1 x = rotr 17 x XOR rotr 19 x XOR drop_bit 10 x"

definition bsig0 :: "u32 \<Rightarrow> u32" where
  "bsig0 x = rotr 2 x XOR rotr 13 x XOR rotr 22 x"

definition bsig1 :: "u32 \<Rightarrow> u32" where
  "bsig1 x = rotr 6 x XOR rotr 11 x XOR rotr 25 x"

definition next_word :: "u32 list \<Rightarrow> u32" where
  "next_word w = ssig1 (w ! 14) + w ! 9 + ssig0 (w ! 1) + w ! 0"

fun round256 :: "digest_state \<Rightarrow> u32 \<Rightarrow> u32 \<Rightarrow> digest_state" where
  "round256 (a, b, c, d, e, f, g, h) k w =
     (let t1 = h + bsig1 e + ((e AND f) XOR (NOT e AND g)) + k + w;
          t2 = bsig0 a + ((a AND b) XOR (a AND c) XOR (b AND c))
      in (t1 + t2, a, b, c, d + t1, e, f, g))"

fun rounds :: "u32 list \<Rightarrow> u32 list \<Rightarrow> digest_state \<Rightarrow> digest_state" where
  "rounds [] w s = s"
| "rounds (k # ks) w s = rounds ks (tl w @ [next_word w]) (round256 s k (hd w))"

fun add_state :: "digest_state \<Rightarrow> digest_state \<Rightarrow> digest_state" where
  "add_state (a, b, c, d, e, f, g, h) (a', b', c', d', e', f', g', h') =
     (a + a', b + b', c + c', d + d', e + e', f + f', g + g', h + h')"

definition compress :: "digest_state \<Rightarrow> char list \<Rightarrow> digest_state" where
  "compress s block = add_state s (rounds K256 (words_of block) s)"

function blocks :: "digest_state \<Rightarrow> char list \<Rightarrow> digest_state" where
  "blocks s m = (if length m < 64 then s else blocks (compress s (take 64 m)) (drop 64 m))"
  by pat_completeness auto
termination by (relation "measure (\<lambda>(s, m). length m)") auto

declare blocks.simps [simp del]

definition word_bytes :: "u32 \<Rightarrow> char list" where
  "word_bytes x =
     [char_of (unat (drop_bit 24 x)), char_of (unat (drop_bit 16 x)),
      char_of (unat (drop_bit 8 x)), char_of (unat x)]"

definition length_bytes :: "64 word \<Rightarrow> char list" where
  "length_bytes x =
     [char_of (unat (drop_bit 56 x)), char_of (unat (drop_bit 48 x)),
      char_of (unat (drop_bit 40 x)), char_of (unat (drop_bit 32 x)),
      char_of (unat (drop_bit 24 x)), char_of (unat (drop_bit 16 x)),
      char_of (unat (drop_bit 8 x)), char_of (unat x)]"

definition pad256 :: "char list \<Rightarrow> char list" where
  "pad256 m =
     m @ [char_of (128 :: nat)]
       @ replicate ((119 - length m mod 64) mod 64) (char_of (0 :: nat))
       @ length_bytes (word_of_nat (8 * length m))"

fun digest_bytes :: "digest_state \<Rightarrow> char list" where
  "digest_bytes (a, b, c, d, e, f, g, h) =
     word_bytes a @ word_bytes b @ word_bytes c @ word_bytes d
       @ word_bytes e @ word_bytes f @ word_bytes g @ word_bytes h"

definition sha256 :: "char list \<Rightarrow> char list" where
  "sha256 m = digest_bytes (blocks init256 (pad256 m))"

definition xor_pad :: "nat \<Rightarrow> char list \<Rightarrow> char list" where
  "xor_pad p k = map (\<lambda>c. char_of ((of_char c :: nat) XOR p)) k"

definition hmac_sha256 :: "char list \<Rightarrow> char list \<Rightarrow> char list" where
  "hmac_sha256 key m =
     (let k0 = (if length key > 64 then sha256 key else key);
          k = k0 @ replicate (64 - length k0) (char_of (0 :: nat))
      in sha256 (xor_pad 0x5C k @ sha256 (xor_pad 0x36 k @ m)))"

section \<open>internal/uac: signature verification\<close>

text \<open>The three error values of the package.\<close>

datatype sig_error = ErrInvalidHeader | ErrNoValidSignature | ErrNotSigned

definition signingVersion :: string where
  "signingVersion = ''v1''"

text \<open>
  \<^verbatim>\<open>signedHeader\<close>. The timestamp is built by \<^verbatim>\<open>time.Unix(ts, 0)\<close> and read back
  only through \<^verbatim>\<open>Unix()\<close>, which returns \<open>ts\<close>: it is kept as that number of
  seconds.
\<close>

record signedHeader =
  timestamp :: int
  signature :: "char list"

text \<open>
  \<^verbatim>\<open>strings.Split\<close> with a separator of one byte: the pieces between the
  separators, one more than there are separators.
\<close>

fun Split :: "string \<Rightarrow> char \<Rightarrow> string list" where
  "Split [] sep = [[]]"
| "Split (c # s) sep =
     (if c = sep then [] # Split s sep
      else (case Split s sep of
              [] \<Rightarrow> [[c]]
            | piece # pieces \<Rightarrow> (c # piece) # pieces))"

text \<open>
  \<^verbatim>\<open>strconv.ParseInt(s, 10, 64)\<close>: an optional sign, then at least one decimal digit
  and nothing else; a value outside the signed 64-bit range is an error too.
  \<open>None\<close> is any error.
\<close>

definition digitVal :: "char \<Rightarrow> nat option" where
  "digitVal c =
     (let n = (of_char c :: nat) in if 48 \<le> n \<and> n \<le> 57 then Some (n - 48) else None)"

fun ParseUint :: "string \<Rightarrow> nat \<Rightarrow> nat option" where
  "ParseUint [] n = Some n"
| "ParseUint (c # s) n =
     (case digitVal c of None \<Rightarrow> None | Some d \<Rightarrow> ParseUint s (n * 10 + d))"

definition ParseInt :: "string \<Rightarrow> int option" where
  "ParseInt s0 =
     (if s0 = [] then None
      else let neg = (hd s0 = CHR ''-'');
               s = (if hd s0 = CHR ''+'' \<or> hd s0 = CHR ''-'' then tl s0 else s0)
           in if s = [] then None
              else (case ParseUint s 0 of
                      None \<Rightarrow> None
                    | Some un \<Rightarrow>
                        if \<not> neg \<and> un \<ge> 2 ^ 63 then None
                        else if neg \<and> un > 2 ^ 63 then None
                        else Some (if neg then - int un else int un)))"

text \<open>\<^verbatim>\<open>fmt.Sprintf("%d", n)\<close> for a signed integer.\<close>

definition digitChar :: "nat \<Rightarrow> char" where
  "digitChar d = char_of (48 + d)"

fun digits :: "nat \<Rightarrow> string" where
  "digits n = (if n < 10 then [digitChar n] else digits (n div 10) @ [digitChar (n mod 10)])"

declare digits.simps [simp del]

definition Sprint_d :: "int \<Rightarrow> string" where
  "Sprint_d i = (if i < 0 then CHR ''-'' # digits (nat (- i)) else digits (nat i))"

text \<open>
  \<^verbatim>\<open>hex.DecodeString\<close>: digits in either case; an odd length or any other byte is
  an error (\<open>None\<close>).
\<close>

definition fromHexChar :: "char \<Rightarrow> nat option" where
  "fromHexChar c =
     (let n = (of_char c :: nat)
      in if 48 \<le> n \<and> n \<le> 57 then Some (n - 48)
         else if 97 \<le> n \<and> n \<le> 102 then Some (n - 97 + 10)
         else if 65 \<le> n \<and> n \<le> 70 then Some (n - 65 + 10)
         else None)"

fun DecodeString :: "string \<Rightarrow> char list option" where
  "DecodeString [] = Some []"
| "DecodeString [p] = None"
| "DecodeString (p # q # s) =
     (case fromHexChar p of
        None \<Rightarrow> None
      | Some a \<Rightarrow>
          (case fromHexChar q of
             None \<Rightarrow> None
           | Some b \<Rightarrow> map_option ((#) (char_of (16 * a + b))) (DecodeString s)))"

text \<open>\<^verbatim>\<open>hex.EncodeToString\<close>, with which a sender writes the digest: lower case.\<close>

definition hextable :: string where
  "hextable = ''0123456789abcdef''"

fun EncodeToString :: "char list \<Rightarrow> string" where
  "EncodeToString [] = []"
| "EncodeToString (v # src) =
     hextable ! ((of_char v :: nat) div 16) # hextable ! ((of_char v :: nat) mod 16)
       # EncodeToString src"

text \<open>The loop of \<^verbatim>\<open>parseSignatureHeader\<close> over the pairs.\<close>

fun parsePairs :: "string list \<Rightarrow> signedHeader \<Rightarrow> signedHeader \<times> sig_error option" where
  "parsePairs [] sh = (sh, None)"
| "parsePairs (pair # pairs) sh =
     (let parts = Split pair (CHR ''='')
      in if length parts \<noteq> 2 then (sh, Some ErrInvalidHeader)
         else if parts ! 0 = ''t''
         then (case ParseInt (parts ! 1) of
                 None \<Rightarrow> (sh, Some ErrInvalidHeader)
               | Some ts \<Rightarrow> parsePairs pairs (sh\<lparr>timestamp := ts\<rparr>))
         else if parts ! 0 = signingVersion
         then (case DecodeString (parts ! 1) of
                 None \<Rightarrow> parsePairs pairs sh
               | Some sig \<Rightarrow> parsePairs pairs (sh\<lparr>signature := sig\<rparr>))
         else parsePairs pairs sh)"

text \<open>
  \<^verbatim>\<open>&signedHeader{}\<close>: no signature, and the zero \<^verbatim>\<open>time.Time\<close>, whose
  \<^verbatim>\<open>Unix()\<close> is \<open>-62135596800\<close>.
\<close>

definition zeroHeader :: signedHeader where
  "zeroHeader = \<lparr>timestamp = - 62135596800, signature = []\<rparr>"

definition parseSignatureHeader :: "string \<Rightarrow> signedHeader \<times> sig_error option" where
  "parseSignatureHeader header =
     (if header = [] then (zeroHeader, Some ErrNotSigned)
      else (case parsePairs (Split header (CHR '','')) zeroHeader of
              (sh, Some err) \<Rightarrow> (sh, Some err)
            | (sh, None) \<Rightarrow>
                if length (signature sh) = 0 then (sh, Some ErrNoValidSignature)
                else (sh, None)))"

definition computeSignature :: "int \<Rightarrow> char list \<Rightarrow> string \<Rightarrow> char list" where
  "computeSignature t payload secret = hmac_sha256 secret (Sprint_d t @ ''.'' @ payload)"

text \<open>
  \<^verbatim>\<open>validatePayload\<close>; \<open>None\<close> is the nil error. \<^verbatim>\<open>hmac.Equal\<close> is equality of the
  two byte slices.
\<close>

definition validatePayload :: "char list \<Rightarrow> string \<Rightarrow> string \<Rightarrow> sig_error option" where
  "validatePayload payload sigHeader secret =
     (case parseSignatureHeader sigHeader of
        (header, Some err) \<Rightarrow> Some err
      | (header, None) \<Rightarrow>
          if computeSignature (timestamp header) payload secret = signature header then None
          else Some ErrNoValidSignature)"

text \<open>The header the sender builds for a payload, as the specification writes it.\<close>

definition signatureHeader :: "string \<Rightarrow> int \<Rightarrow> char list \<Rightarrow> string" where
  "signatureHeader secret t payload =
     ''t='' @ Sprint_d t @ '',v1='' @ EncodeToString (computeSignature t payload secret)"

text \<open>
  A pair that the loop accepts: exactly one \<^verbatim>\<open>=\<close>, and a decimal value in range
  when the key is \<^verbatim>\<open>t\<close>.
\<close>

definition parseablePair :: "string \<Rightarrow> bool" where
  "parseablePair pair =
     (let parts = Split pair (CHR ''='')
      in length parts = 2 \<and> (parts ! 0 \<noteq> ''t'' \<or> ParseInt (parts ! 1) \<noteq> None))"


section \<open>cmd: routing Access controller events\<close>

record WebhookEvent =
  Event :: string
  EventObjectID :: string
  Data :: string

text \<open>
  The two anonymous payload structs of \<^verbatim>\<open>handleUacEvent\<close>, flattened:
  \<^verbatim>\<open>payload.Location.ID\<close> is \<open>Location_ID\<close>, and so on.
\<close>

record unlock_payload =
  Location_ID :: string
  Actor_Name :: string
  Actor_Type :: string
  Object_Result :: string

record dps_payload =
  dps_Location_ID :: string
  Object_EventType :: string
  Object_Status :: string

text \<open>
  The process-wide variables of package main: the two clients and the configured
  doors. \<^verbatim>\<open>json.Unmarshal\<close> of the raw event data into each payload struct belongs
  to the standard library and is taken as given; \<open>Inl\<close> is its error.
\<close>

record app =
  hubitatClient :: hub
  uacClient :: uac
  Doors :: "Door list"
  unmarshalUnlock :: "string \<Rightarrow> string + unlock_payload"
  unmarshalDps :: "string \<Rightarrow> string + dps_payload"

text \<open>
  \<^verbatim>\<open>handleUacEvent\<close>. The 200 ms sleep before \<^verbatim>\<open>AssertDoorSwitchOn\<close> has no
  counterpart here: it sends nothing and changes no variable.
\<close>

definition handleUnlock :: "app \<Rightarrow> WebhookEvent \<Rightarrow> state \<Rightarrow> state" where
  "handleUnlock a evt s =
     (case unmarshalUnlock a (Data evt) of
        Inl err \<Rightarrow> logger LevelError ''Failed to unmarshal event data'' s
      | Inr payload \<Rightarrow>
          if Actor_Type payload = ''open-api''
             \<and> Actor_Name payload = ''unifi-access-hubitat-middleware''
          then logger LevelInfo ''Door unlock event triggered by API, ignoring'' s
          else if Object_Result payload \<noteq> ''Access Granted''
          then logger LevelInfo ''Door unlock event not granted, ignoring'' s
          else (case getDoorByUacID (Doors a) (Location_ID payload) of
                  None \<Rightarrow> logger LevelWarn ''Door not found for UAC ID'' s
                | Some door \<Rightarrow>
                    (case AssertDoorSwitchOn (hubitatClient a) (HubitatSwitchID door) s of
                       (Some err, s1) \<Rightarrow>
                         logger LevelError ''Failed to assert door switch on in Hubitat'' s1
                     | (None, s1) \<Rightarrow> s1)))"

definition handleDpsStatus :: "app \<Rightarrow> WebhookEvent \<Rightarrow> state \<Rightarrow> state" where
  "handleDpsStatus a evt s =
     (case unmarshalDps a (Data evt) of
        Inl err \<Rightarrow> logger LevelError ''Failed to unmarshal event data'' s
      | Inr payload \<Rightarrow>
          if Object_EventType payload \<noteq> ''dps_change''
          then logger LevelError ''Device event type is not dps_change, ignoring'' s
          else (case getDoorByUacID (Doors a) (dps_Location_ID payload) of
                  None \<Rightarrow> logger LevelWarn ''Door not found for UAC ID'' s
                | Some door \<Rightarrow>
                    if Object_Status payload = ''open''
                    then (case AssertDoorContactOpened (hubitatClient a) (HubitatContactID door) s of
                            (Some err, s1) \<Rightarrow>
                              logger LevelError ''Failed to assert door status in hubitat'' s1
                          | (None, s1) \<Rightarrow> s1)
                    else if Object_Status payload = ''close''
                    then (case AssertDoorContactClosed (hubitatClient a) (HubitatContactID door) s of
                            (Some err, s1) \<Rightarrow>
                              logger LevelError ''Failed to assert door status in hubitat'' s1
                          | (None, s1) \<Rightarrow> s1)
                    else logger LevelError ''Unknown door status'' s))"

definition handleUacEvent :: "app \<Rightarrow> WebhookEvent \<Rightarrow> state \<Rightarrow> state" where
  "handleUacEvent a evt s =
     (let s0 = logger LevelInfo ''Received UAC Event'' s
      in if Event evt = ''access.door.unlock'' then handleUnlock a evt s0
         else if Event evt = ''access.device.dps_status'' then handleDpsStatus a evt s0
         else logger LevelError ''Unknown Uac event'' s0)"

section \<open>cmd: the polling reconciler\<close>

text \<open>
  The startup loop of \<^verbatim>\<open>pollUacStates\<close> over the fetched doors. The flag of the
  result is \<open>True\<close> when the loop left through its \<^verbatim>\<open>return\<close>, which ends
  \<^verbatim>\<open>pollUacStates\<close> itself.
\<close>

fun snapshotDoors :: "app \<Rightarrow> uac_Door list \<Rightarrow> state \<Rightarrow> bool \<times> state" where
  "snapshotDoors a [] s = (False, s)"
| "snapshotDoors a (d # ds) s =
     (case getDoorByUacID (Doors a) (DoorID d) of
        None \<Rightarrow> (True, logger LevelWarn ''Door not found for UAC ID'' s)
      | Some door \<Rightarrow>
          snapshotDoors a ds
            (if DoorPositionStatus d = ''open''
             then (case AssertDoorContactOpened (hubitatClient a) (HubitatContactID door) s of
                     (Some err, s1) \<Rightarrow> logger LevelError ''Failed to assert door contact opened'' s1
                   | (None, s1) \<Rightarrow> s1)
             else if DoorPositionStatus d = ''close''
             then (case AssertDoorContactClosed (hubitatClient a) (HubitatContactID door) s of
                     (Some err, s1) \<Rightarrow> logger LevelError ''Failed to assert door contact closed'' s1
                   | (None, s1) \<Rightarrow> s1)
             else s))"

definition startupSnapshot :: "app \<Rightarrow> state \<Rightarrow> bool \<times> state" where
  "startupSnapshot a s =
     (case FetchAllDoors (uacClient a) s of
        (Inl err, s1) \<Rightarrow> (False, logger LevelError ''Failed to fetch all doors'' s1)
      | (Inr doors, s1) \<Rightarrow> snapshotDoors a doors s1)"

text \<open>
  \<^verbatim>\<open>doorLockRuleStates\<close> is a \<^verbatim>\<open>map[string]string\<close>: a door never observed reads as
  the empty string, the unset value.
\<close>

type_synonym lockRuleStates = "string \<Rightarrow> string"

text \<open>The comparison with the recorded state, once the rule type has been translated.\<close>

definition recordLockRuleState ::
  "app \<Rightarrow> Door \<Rightarrow> string \<Rightarrow> string \<Rightarrow> lockRuleStates \<Rightarrow> state \<Rightarrow> lockRuleStates \<times> state" where
  "recordLockRuleState a door lockID currDoorLockRuleState doorLockRuleStates s =
     (let prevState = doorLockRuleStates (UacID door)
      in if currDoorLockRuleState \<noteq> prevState
         then (doorLockRuleStates(UacID door := currDoorLockRuleState),
               if currDoorLockRuleState = ''locked''
               then (case AssertDoorLockLocked (hubitatClient a) lockID s of
                       (Some err, s1) \<Rightarrow> logger LevelError ''Failed to assert door lock locked'' s1
                     | (None, s1) \<Rightarrow> s1)
               else if currDoorLockRuleState = ''unlocked''
               then (case AssertDoorLockUnlocked (hubitatClient a) lockID s of
                       (Some err, s1) \<Rightarrow> logger LevelError ''Failed to assert door lock unlocked'' s1
                     | (None, s1) \<Rightarrow> s1)
               else s)
         else (doorLockRuleStates, s))"

text \<open>The body of the loop over \<^verbatim>\<open>appConfig.Doors\<close>, for one door.\<close>

definition pollDoor :: "app \<Rightarrow> Door \<Rightarrow> lockRuleStates \<Rightarrow> state \<Rightarrow> lockRuleStates \<times> state" where
  "pollDoor a door doorLockRuleStates s =
     (case HubitatLockID door of
        None \<Rightarrow> (doorLockRuleStates, s)
      | Some lockID \<Rightarrow>
          (case GetDoorLockRule (uacClient a) (UacID door) s of
             (Inl err, s1) \<Rightarrow>
               (doorLockRuleStates, logger LevelError ''Failed to get door lock rule'' s1)
           | (Inr rule, s1) \<Rightarrow>
               if RuleType rule = ''keep_unlock''
               then recordLockRuleState a door lockID ''unlocked'' doorLockRuleStates s1
               else if RuleType rule = []
               then recordLockRuleState a door lockID ''locked'' doorLockRuleStates s1
               else (doorLockRuleStates, logger LevelWarn ''Unknown door lock rule type'' s1)))"

fun pollDoors :: "app \<Rightarrow> Door list \<Rightarrow> lockRuleStates \<Rightarrow> state \<Rightarrow> lockRuleStates \<times> state" where
  "pollDoors a [] doorLockRuleStates s = (doorLockRuleStates, s)"
| "pollDoors a (door # doors) doorLockRuleStates s =
     (case pollDoor a door doorLockRuleStates s of
        (doorLockRuleStates', s') \<Rightarrow> pollDoors a doors doorLockRuleStates' s')"

text \<open>
  The \<^verbatim>\<open>for { select { ... } }\<close> loop. Which of the two channels is ready is decided
  outside the program: \<open>ticks\<close> is the number of times the ticker fires before the
  context is cancelled.
\<close>

fun pollTicks :: "app \<Rightarrow> nat \<Rightarrow> lockRuleStates \<Rightarrow> state \<Rightarrow> lockRuleStates \<times> state" where
  "pollTicks a 0 doorLockRuleStates s = (doorLockRuleStates, s)"
| "pollTicks a (Suc ticks) doorLockRuleStates s =
     (case pollDoors a (Doors a) doorLockRuleStates s of
        (doorLockRuleStates', s') \<Rightarrow> pollTicks a ticks doorLockRuleStates' s')"

definition pollUacStates :: "app \<Rightarrow> nat \<Rightarrow> state \<Rightarrow> state" where
  "pollUacStates a ticks s =
     (case startupSnapshot a s of
        (True, s1) \<Rightarrow> s1
      | (False, s1) \<Rightarrow> snd (pollTicks a ticks (\<lambda>_. []) s1))"

section \<open>Counting assertions\<close>

text \<open>
  Every invocation of \<^verbatim>\<open>assertDeviceState\<close> starts with one \<^verbatim>\<open>GetDeviceInfo\<close>
  request for its device, and nothing else sends that request: the number of such
  requests is the number of assertions issued on the device.
\<close>

definition assertionsOn :: "string \<Rightarrow> call list \<Rightarrow> nat" where
  "assertionsOn deviceID cs = length (filter (\<lambda>c. c = HubGetDeviceInfo deviceID) cs)"

text \<open>
  The reconciler's treatment of an assertion's result: a failure is logged, and the
  state the assertion left is kept either way.
\<close>

definition logFailure :: "string \<Rightarrow> hub_error option \<times> state \<Rightarrow> state" where
  "logFailure msg r = (case r of (Some err, s1) \<Rightarrow> logger LevelError msg s1 | (None, s1) \<Rightarrow> s1)"

section \<open>Example devices, doors and worlds\<close>

definition state0 :: state where
  "state0 = \<lparr>calls = [], logs = []\<rparr>"

text \<open>A hub that answers every device query with \<open>info\<close> and every command with \<open>sent\<close>.\<close>

definition fixedHub :: "(string + DeviceInfo) \<Rightarrow> string option \<Rightarrow> hub" where
  "fixedHub info sent =
     \<lparr>getDeviceInfoResponse = (\<lambda>history deviceID. info),
      sendDeviceCommandResponse = (\<lambda>history deviceID command secondaryValue. sent)\<rparr>"

definition switchOn :: "any list \<Rightarrow> DeviceInfo" where
  "switchOn capabilities =
     \<lparr>ID = ''12'', Type = ''Virtual Switch'',
      Attributes = [[''name'' \<mapsto> AnyString ''switch'', ''currentValue'' \<mapsto> AnyString ''on'']],
      Capabilities = capabilities, Commands = [''off'', ''on'']\<rparr>"

definition contactSensor :: "string \<Rightarrow> DeviceInfo" where
  "contactSensor contact =
     \<lparr>ID = ''10'', Type = ''Virtual Contact Sensor'',
      Attributes = [[''name'' \<mapsto> AnyString ''contact'', ''currentValue'' \<mapsto> AnyString contact]],
      Capabilities = [AnyString ''ContactSensor'', AnyString ''Sensor''],
      Commands = [''close'', ''open'']\<rparr>"



definition uacDoor :: "string \<Rightarrow> string \<Rightarrow> string \<Rightarrow> uac_Door" where
  "uacDoor doorID relay position =
     \<lparr>DoorLockRelayStatus = relay, DoorPositionStatus = position, FloorID = ''floor-1'',
      FullName = ''Building - Door'', DoorID = doorID, IsBindHub = True,
      Name = ''Door'', DoorType = ''door''\<rparr>"

text \<open>
  A controller with the given doors, the same lock rule on each, where every PUT
  succeeds.
\<close>

definition fixedUac :: "uac_Door list \<Rightarrow> DoorLockRule \<Rightarrow> uac" where
  "fixedUac doors rule =
     \<lparr>fetchAllDoorsResponse = (\<lambda>history. Inr doors),
      fetchDoorResponse = (\<lambda>history doorID.
        case find (\<lambda>d. DoorID d = doorID) doors of
          None \<Rightarrow> Inl ''API error: not found''
        | Some d \<Rightarrow> Inr d),
      getDoorLockRuleResponse = (\<lambda>history doorID. Inr rule),
      putUnlockResponse = (\<lambda>history doorID. PutDecoded ''SUCCESS'' ''success''),
      putLockRuleResponse = (\<lambda>history doorID ruleType. PutDecoded ''SUCCESS'' ''success'')\<rparr>"

definition door1 :: Door where
  "door1 = \<lparr>UacID = ''door-1'', HubitatContactID = ''10'', HubitatLockID = Some ''11'',
             HubitatSwitchID = ''12''\<rparr>"

definition unlockBy :: "string \<Rightarrow> string \<Rightarrow> string \<Rightarrow> unlock_payload" where
  "unlockBy actorType actorName result =
     \<lparr>Location_ID = ''door-1'', Actor_Name = actorName, Actor_Type = actorType,
      Object_Result = result\<rparr>"

definition dpsChange :: "string \<Rightarrow> dps_payload" where
  "dpsChange status =
     \<lparr>dps_Location_ID = ''door-1'', Object_EventType = ''dps_change'', Object_Status = status\<rparr>"

text \<open>An application with the one door \<open>door1\<close>, whose events decode to the given payloads.\<close>

definition exampleApp :: "hub \<Rightarrow> uac \<Rightarrow> unlock_payload \<Rightarrow> dps_payload \<Rightarrow> app" where
  "exampleApp h u unlock dps =
     \<lparr>hubitatClient = h, uacClient = u, Doors = [door1],
      unmarshalUnlock = (\<lambda>raw. Inr unlock), unmarshalDps = (\<lambda>raw. Inr dps)\<rparr>"

definition uacEvent :: "string \<Rightarrow> WebhookEvent" where
  "uacEvent kind = \<lparr>Event = kind, EventObjectID = ''event-1'', Data = ''{}''\<rparr>"

section \<open>Properties of the slice comparison\<close>

lemma countUp_apply: "countUp counts a v = counts v + int (count (mset a) v)"
  by (induction a arbitrary: counts) auto

lemma countDown_iff:
  "(\<And>v. 0 \<le> counts v) \<Longrightarrow>
   countDown counts b \<longleftrightarrow> (\<forall>v. int (count (mset b) v) \<le> counts v)"
proof (induction b arbitrary: counts)
  case Nil
  then show ?case by simp
next
  case (Cons x b)
  let ?c = "counts(x := counts x - 1)"
  show ?case
  proof (cases "counts x - 1 < 0")
    case True
    then have "\<not> int (count (mset (x # b)) x) \<le> counts x" by simp
    with True show ?thesis by (auto simp: Let_def)
  next
    case False
    then have nonneg: "\<And>v. 0 \<le> ?c v" using Cons.prems by simp
    have "countDown counts (x # b) = countDown ?c b"
      using False by (simp add: Let_def)
    also have "\<dots> = (\<forall>v. int (count (mset b) v) \<le> ?c v)"
      by (rule Cons.IH [OF nonneg])
    also have "\<dots> = (\<forall>v. int (count (mset (x # b)) v) \<le> counts v)"
      by (rule arg_cong [where f = All]) (auto simp: fun_eq_iff)
    finally show ?thesis .
  qed
qed

lemma StringSlicesEqual_mset: "StringSlicesEqual a b \<longleftrightarrow> mset a = mset b"
proof (cases "length a = length b")
  case False
  then have "mset a \<noteq> mset b" by (metis size_mset)
  with False show ?thesis by (simp add: StringSlicesEqual_def)
next
  case True
  have "StringSlicesEqual a b \<longleftrightarrow> (\<forall>v. count (mset b) v \<le> count (mset a) v)"
    using True by (simp add: StringSlicesEqual_def countDown_iff countUp_apply)
  also have "\<dots> \<longleftrightarrow> mset b \<subseteq># mset a"
    by (simp add: subseteq_mset_def)
  also have "\<dots> \<longleftrightarrow> mset a = mset b"
  proof
    assume "mset b \<subseteq># mset a"
    moreover have "size (mset a) = size (mset b)" using True by simp
    ultimately show "mset a = mset b"
      by (metis mset_subset_size subset_mset.less_le less_irrefl)
  qed simp
  finally show ?thesis .
qed

text \<open>
  C7. The comparison is multiset equality: \<^verbatim>\<open>StringSlicesEqual(a, b)\<close> holds exactly
  when \<open>b\<close> is a permutation of \<open>a\<close>; it accepts \<^verbatim>\<open>["a","b"]\<close> against
  \<^verbatim>\<open>["b","a"]\<close>, rejects \<^verbatim>\<open>["a","a","b"]\<close> against \<^verbatim>\<open>["a","b"]\<close>, and is
  symmetric in its arguments.
\<close>

theorem StringSlicesEqual_multiset:
  "(StringSlicesEqual a b \<longleftrightarrow> mset a = mset b)
   \<and> StringSlicesEqual [''a'', ''b''] [''b'', ''a'']
   \<and> \<not> StringSlicesEqual [''a'', ''a'', ''b''] [''a'', ''b'']
   \<and> (StringSlicesEqual a b \<longleftrightarrow> StringSlicesEqual b a)"
  by (auto simp: StringSlicesEqual_mset)

section \<open>Properties of SHA-256 and HMAC\<close>

lemma length_digest_bytes: "length (digest_bytes s) = 32"
  by (induction s rule: digest_bytes.induct) (simp add: word_bytes_def)

lemma length_sha256: "length (sha256 m) = 32"
  by (simp add: sha256_def length_digest_bytes)

lemma length_hmac_sha256: "length (hmac_sha256 key m) = 32"
  by (simp add: hmac_sha256_def Let_def length_sha256)

section \<open>Properties of the header parser\<close>

lemma Split_not_Nil [simp]: "Split s sep \<noteq> []"
  by (induction s) (auto split: list.splits)

lemma Split_no_sep: "sep \<notin> set s \<Longrightarrow> Split s sep = [s]"
  by (induction s) auto

lemma Split_append: "sep \<notin> set a \<Longrightarrow> Split (a @ sep # b) sep = a # Split b sep"
  by (induction a) auto

lemma digitVal_digitChar: "d < 10 \<Longrightarrow> digitVal (digitChar d) = Some d"
  by (simp add: digitVal_def digitChar_def Let_def)

lemma ParseUint_append:
  "ParseUint (a @ b) n = (case ParseUint a n of None \<Rightarrow> None | Some m \<Rightarrow> ParseUint b m)"
  by (induction a arbitrary: n) (auto split: option.splits)

lemma ParseUint_digits: "ParseUint (digits n) 0 = Some n"
proof (induction n rule: digits.induct)
  case (1 n)
  show ?case
  proof (cases "n < 10")
    case True
    then show ?thesis by (simp add: digits.simps [of n] digitVal_digitChar)
  next
    case False
    then have "ParseUint (digits (n div 10)) 0 = Some (n div 10)" using 1 by simp
    moreover have "digitVal (digitChar (n mod 10)) = Some (n mod 10)"
      by (simp add: digitVal_digitChar)
    ultimately show ?thesis
      using False by (simp add: digits.simps [of n] ParseUint_append)
  qed
qed

lemma digits_not_Nil [simp]: "digits n \<noteq> []"
  by (subst digits.simps) simp

lemma of_char_digitChar: "d < 10 \<Longrightarrow> (of_char (digitChar d) :: nat) = 48 + d"
  by (simp add: digitChar_def)

lemma set_digits: "c \<in> set (digits n) \<Longrightarrow> 48 \<le> (of_char c :: nat) \<and> (of_char c :: nat) \<le> 57"
proof (induction n rule: digits.induct)
  case (1 n)
  show ?case
  proof (cases "n < 10")
    case True
    with 1(2) show ?thesis by (simp add: digits.simps [of n] of_char_digitChar)
  next
    case False
    with 1 show ?thesis
      by (auto simp: digits.simps [of n] of_char_digitChar)
  qed
qed

lemma hd_digits: "48 \<le> (of_char (hd (digits n)) :: nat)"
  using set_digits [of "hd (digits n)" n] by simp

lemma ParseInt_Sprint_d:
  assumes "- (2 ^ 63) \<le> i" and "i < 2 ^ 63"
  shows "ParseInt (Sprint_d i) = Some i"
proof (cases "i < 0")
  case True
  then have "nat (- i) \<le> 2 ^ 63" using assms(1) by simp
  with True show ?thesis
    by (simp add: ParseInt_def Sprint_d_def ParseUint_digits)
next
  case False
  have "hd (digits (nat i)) \<noteq> CHR ''-''" "hd (digits (nat i)) \<noteq> CHR ''+''"
    using hd_digits [of "nat i"] by auto
  moreover have "\<not> nat i \<ge> 2 ^ 63" using assms(2) False by simp
  ultimately show ?thesis
    using False by (simp add: ParseInt_def Sprint_d_def ParseUint_digits)
qed

lemma Sprint_d_no_comma: "CHR '','' \<notin> set (Sprint_d i)"
proof
  assume "CHR '','' \<in> set (Sprint_d i)"
  then have "CHR '','' \<in> set (digits (nat (- i))) \<or> CHR '','' \<in> set (digits (nat i))"
    by (auto simp: Sprint_d_def split: if_splits)
  then show False using set_digits [of "CHR '',''"] by auto
qed

lemma Sprint_d_no_equals: "CHR ''='' \<notin> set (Sprint_d i)"
proof
  assume "CHR ''='' \<in> set (Sprint_d i)"
  then have "CHR ''='' \<in> set (digits (nat (- i))) \<or> CHR ''='' \<in> set (digits (nat i))"
    by (auto simp: Sprint_d_def split: if_splits)
  then show False using set_digits [of "CHR ''=''"] by auto
qed

lemma hextable_nth: "k < 16 \<Longrightarrow> fromHexChar (hextable ! k) = Some k"
proof -
  assume "k < 16"
  then have "k \<in> {0, 1, 2, 3, 4, 5, 6, 7, 8, 9, 10, 11, 12, 13, 14, 15}" by (simp; arith)
  then show ?thesis
    by (elim insertE) (simp_all add: hextable_def fromHexChar_def)
qed

lemma hextable_no_sep:
  "k < 16 \<Longrightarrow> hextable ! k \<noteq> CHR '','' \<and> hextable ! k \<noteq> CHR ''=''"
proof -
  assume "k < 16"
  then have "k \<in> {0, 1, 2, 3, 4, 5, 6, 7, 8, 9, 10, 11, 12, 13, 14, 15}" by (simp; arith)
  then show ?thesis
    by (elim insertE) (simp_all add: hextable_def)
qed

lemma DecodeString_EncodeToString: "DecodeString (EncodeToString src) = Some src"
proof (induction src)
  case Nil
  show ?case by simp
next
  case (Cons v src)
  let ?n = "of_char v :: nat"
  have hi: "?n div 16 < 16" using nat_of_char_less_256 [of v] by arith
  have lo: "?n mod 16 < 16" by simp
  have "char_of (16 * (?n div 16) + ?n mod 16) = v" by simp
  with Cons hextable_nth [OF hi] hextable_nth [OF lo] show ?case by simp
qed

lemma EncodeToString_no_comma: "CHR '','' \<notin> set (EncodeToString src)"
proof (induction src)
  case Nil
  show ?case by simp
next
  case (Cons v src)
  let ?n = "of_char v :: nat"
  have hi: "?n div 16 < 16" using nat_of_char_less_256 [of v] by arith
  have lo: "?n mod 16 < 16" by simp
  from Cons hextable_no_sep [OF hi] hextable_no_sep [OF lo] show ?case by auto
qed

lemma EncodeToString_no_equals: "CHR ''='' \<notin> set (EncodeToString src)"
proof (induction src)
  case Nil
  show ?case by simp
next
  case (Cons v src)
  let ?n = "of_char v :: nat"
  have hi: "?n div 16 < 16" using nat_of_char_less_256 [of v] by arith
  have lo: "?n mod 16 < 16" by simp
  from Cons hextable_no_sep [OF hi] hextable_no_sep [OF lo] show ?case by auto
qed

text \<open>Parsing a header of the shape \<^verbatim>\<open>t=<decimal>,v1=<digest>\<close>.\<close>

lemma Split_t: "Split (CHR ''t'' # CHR ''='' # Sprint_d t) (CHR ''='') = [''t'', Sprint_d t]"
  by (simp add: Split_no_sep [OF Sprint_d_no_equals])

lemma Split_v1:
  "CHR ''='' \<notin> set d \<Longrightarrow> Split (CHR ''v'' # CHR ''1'' # CHR ''='' # d) (CHR ''='') = [''v1'', d]"
  by (simp add: Split_no_sep)

lemma Split_header:
  assumes "CHR '','' \<notin> set d"
  shows "Split (CHR ''t'' # CHR ''='' # Sprint_d t @ CHR '','' # CHR ''v'' # CHR ''1'' # CHR ''='' # d)
           (CHR '','')
         = [CHR ''t'' # CHR ''='' # Sprint_d t, CHR ''v'' # CHR ''1'' # CHR ''='' # d]"
proof -
  have "Split (Sprint_d t @ CHR '','' # CHR ''v'' # CHR ''1'' # CHR ''='' # d) (CHR '','')
          = Sprint_d t # Split (CHR ''v'' # CHR ''1'' # CHR ''='' # d) (CHR '','')"
    using Sprint_d_no_comma by (rule Split_append)
  then show ?thesis
    using assms by (simp add: Split_no_sep)
qed

lemma parse_t_v1:
  assumes "- (2 ^ 63) \<le> t" and "t < 2 ^ 63"
    and "CHR '','' \<notin> set d" and "CHR ''='' \<notin> set d"
  shows "parsePairs (Split (''t='' @ Sprint_d t @ '',v1='' @ d) (CHR '','')) sh =
           (case DecodeString d of
              None \<Rightarrow> (sh\<lparr>timestamp := t\<rparr>, None)
            | Some sig \<Rightarrow> (sh\<lparr>timestamp := t, signature := sig\<rparr>, None))"
  by (simp add: Split_header [OF assms(3)] Split_t Split_v1 [OF assms(4)]
        ParseInt_Sprint_d [OF assms(1,2)] signingVersion_def
        del: Split.simps split: option.splits)

lemma validate_t_v1:
  assumes "- (2 ^ 63) \<le> t" and "t < 2 ^ 63"
    and "CHR '','' \<notin> set d" and "CHR ''='' \<notin> set d"
  shows "validatePayload payload (''t='' @ Sprint_d t @ '',v1='' @ d) secret = None
           \<longleftrightarrow> DecodeString d = Some (computeSignature t payload secret)"
proof -
  let ?h = "''t='' @ Sprint_d t @ '',v1='' @ d"
  have ne: "computeSignature t payload secret \<noteq> []"
    using length_hmac_sha256 [of secret "Sprint_d t @ ''.'' @ payload"]
    by (auto simp: computeSignature_def)
  have h: "?h \<noteq> []" by simp
  show ?thesis
  proof (cases "DecodeString d")
    case None
    then have "parsePairs (Split ?h (CHR '','')) zeroHeader = (zeroHeader\<lparr>timestamp := t\<rparr>, None)"
      by (simp only: parse_t_v1 [OF assms] option.case)
    then have "parseSignatureHeader ?h = (zeroHeader\<lparr>timestamp := t\<rparr>, Some ErrNoValidSignature)"
      using h by (simp only: parseSignatureHeader_def) (simp add: zeroHeader_def)
    then have "validatePayload payload ?h secret = Some ErrNoValidSignature"
      by (simp only: validatePayload_def) simp
    with None show ?thesis by simp
  next
    case (Some sig)
    then have p: "parsePairs (Split ?h (CHR '','')) zeroHeader
                 = (zeroHeader\<lparr>timestamp := t, signature := sig\<rparr>, None)"
      by (simp only: parse_t_v1 [OF assms] option.case)
    show ?thesis
    proof (cases "sig = []")
      case True
      with p have "parseSignatureHeader ?h
                 = (zeroHeader\<lparr>timestamp := t, signature := sig\<rparr>, Some ErrNoValidSignature)"
        using h by (simp only: parseSignatureHeader_def) (simp add: zeroHeader_def)
      then have "validatePayload payload ?h secret = Some ErrNoValidSignature"
        by (simp only: validatePayload_def) simp
      with Some True ne show ?thesis by auto
    next
      case False
      with p have "parseSignatureHeader ?h
                 = (zeroHeader\<lparr>timestamp := t, signature := sig\<rparr>, None)"
        using h by (simp only: parseSignatureHeader_def) (simp add: zeroHeader_def)
      then have "validatePayload payload ?h secret
                 = (if computeSignature t payload secret = sig then None
                    else Some ErrNoValidSignature)"
        by (simp only: validatePayload_def) simp
      with Some show ?thesis by auto
    qed
  qed
qed

section \<open>One HMAC-SHA256 value, computed\<close>

lemma next_word_norm: "next_word w = take_bit 32 (ssig1 (w ! 14) + w ! 9 + ssig0 (w ! 1) + w ! 0)"
  by (simp add: next_word_def take_bit_word_eq_self)

lemma round256_norm:
  "round256 (a, b, c, d, e, f, g, h) k w =
     (let t1 = take_bit 32 (h + bsig1 e + ((e AND f) XOR (NOT e AND g)) + k + w);
          t2 = take_bit 32 (bsig0 a + ((a AND b) XOR (a AND c) XOR (b AND c)))
      in (take_bit 32 (t1 + t2), a, b, c, take_bit 32 (d + t1), e, f, g))"
  by (simp add: take_bit_word_eq_self Let_def)

lemma add_state_norm:
  "add_state (a, b, c, d, e, f, g, h) (a', b', c', d', e', f', g', h') =
     (take_bit 32 (a + a'), take_bit 32 (b + b'), take_bit 32 (c + c'), take_bit 32 (d + d'),
      take_bit 32 (e + e'), take_bit 32 (f + f'), take_bit 32 (g + g'), take_bit 32 (h + h'))"
  by (simp add: take_bit_word_eq_self)

lemma replicate_numeral: "replicate (numeral k) x = x # replicate (pred_numeral k) x"
  by (simp add: numeral_eq_Suc)

lemma of_char_char_of: "(of_char (char_of (n :: nat)) :: u32) = of_nat (n mod 256)"
  by (metis of_char_of of_nat_of_char)


lemma rounds_1:
  "rounds K256
     [0x45535544, 0x53423636, 0x36363636, 0x36363636, 0x36363636, 0x36363636,
      0x36363636, 0x36363636, 0x36363636, 0x36363636, 0x36363636, 0x36363636,
      0x36363636, 0x36363636, 0x36363636, 0x36363636]
     (0x6A09E667, 0xBB67AE85, 0x3C6EF372, 0xA54FF53A,
      0x510E527F, 0x9B05688C, 0x1F83D9AB, 0x5BE0CD19)
   = (0x087668CA, 0xF4DA52E3, 0xC864EB30, 0x4F999C68,
      0xCA0E3687, 0x2310AD08, 0x927F21C9, 0x53E8019A)"
  by (simp add: K256_def next_word_norm round256_norm ssig0_def ssig1_def bsig0_def bsig1_def
        rotr_def del: round256.simps)

lemma rounds_2:
  "rounds K256
     [0x31373030, 0x30303030, 0x30302E7B, 0x7D800000, 0x00000000, 0x00000000,
      0x00000000, 0x00000000, 0x00000000, 0x00000000, 0x00000000, 0x00000000,
      0x00000000, 0x00000000, 0x00000000, 0x00000268]
     (0x72804F31, 0xB0420168, 0x04D3DEA2, 0xF4E991A2,
      0x1B1C8906, 0xBE161594, 0xB202FB74, 0xAFC8CEB3)
   = (0x67A0F6B2, 0x7B0BD93C, 0x511B731E, 0xD39CA327,
      0xC6DF4C7F, 0x29C8BD5A, 0x89BB5780, 0x33A03F98)"
  by (simp add: K256_def next_word_norm round256_norm ssig0_def ssig1_def bsig0_def bsig1_def
        rotr_def del: round256.simps)

lemma rounds_3:
  "rounds K256
     [0x2F393F2E, 0x39285C5C, 0x5C5C5C5C, 0x5C5C5C5C, 0x5C5C5C5C, 0x5C5C5C5C,
      0x5C5C5C5C, 0x5C5C5C5C, 0x5C5C5C5C, 0x5C5C5C5C, 0x5C5C5C5C, 0x5C5C5C5C,
      0x5C5C5C5C, 0x5C5C5C5C, 0x5C5C5C5C, 0x5C5C5C5C]
     (0x6A09E667, 0xBB67AE85, 0x3C6EF372, 0xA54FF53A,
      0x510E527F, 0x9B05688C, 0x1F83D9AB, 0x5BE0CD19)
   = (0xF07A20C3, 0xEFD0239D, 0x3942463B, 0x5259302A,
      0x76E8223F, 0xFDE2150D, 0xFFEB8EF2, 0xCDFF852C)"
  by (simp add: K256_def next_word_norm round256_norm ssig0_def ssig1_def bsig0_def bsig1_def
        rotr_def del: round256.simps)

lemma rounds_4:
  "rounds K256
     [0xDA2145E3, 0x2B4DDAA4, 0x55EF51C0, 0xC88634C9, 0xE1FBD585, 0xE7DED2EE,
      0x3BBE52F4, 0xE3690E4B, 0x80000000, 0x00000000, 0x00000000, 0x00000000,
      0x00000000, 0x00000000, 0x00000000, 0x00000300]
     (0x5A84072A, 0xAB37D222, 0x75B139AD, 0xF7A92564,
      0xC7F674BE, 0x98E77D99, 0x1F6F689D, 0x29E05245)
   = (0x5DD2944E, 0xCE6827C1, 0x564DD615, 0xDE910E3E,
      0xED88BDC4, 0x12E8FE9E, 0x8EEF25E0, 0x4FC59F1E)"
  by (simp add: K256_def next_word_norm round256_norm ssig0_def ssig1_def bsig0_def bsig1_def
        rotr_def del: round256.simps)


lemma inner_state:
  "blocks init256 (pad256 (xor_pad 0x36 (''secret'' @ replicate (64 - length ''secret'') (char_of (0 :: nat))) @ ''1700000000.{}''))
    = (0xDA2145E3, 0x2B4DDAA4, 0x55EF51C0, 0xC88634C9,
      0xE1FBD585, 0xE7DED2EE, 0x3BBE52F4, 0xE3690E4B)"
  apply (simp add: pad256_def xor_pad_def length_bytes_def replicate_numeral)
  apply (subst blocks.simps)
  apply (simp add: compress_def be32_def of_char_char_of init256_def rounds_1 add_state_norm del: add_state.simps)
  apply (subst blocks.simps)
  apply (simp add: compress_def be32_def of_char_char_of init256_def rounds_2 add_state_norm del: add_state.simps)
  apply (subst blocks.simps)
  apply simp
  done


lemma outer_state:
  "blocks init256 (pad256 (xor_pad 0x5C (''secret'' @ replicate (64 - length ''secret'') (char_of (0 :: nat)))
      @ digest_bytes (0xDA2145E3, 0x2B4DDAA4, 0x55EF51C0, 0xC88634C9,
      0xE1FBD585, 0xE7DED2EE, 0x3BBE52F4, 0xE3690E4B)))
    = (0xB8569B78, 0x799FF9E3, 0xCBFF0FC2, 0xD63A33A2,
      0xB57F3282, 0xABD07C37, 0xAE5E8E7D, 0x79A5F163)"
  apply (simp add: pad256_def xor_pad_def length_bytes_def replicate_numeral word_bytes_def)
  apply (subst blocks.simps)
  apply (simp add: compress_def be32_def of_char_char_of init256_def rounds_3 add_state_norm del: add_state.simps)
  apply (subst blocks.simps)
  apply (simp add: compress_def be32_def of_char_char_of init256_def rounds_4 add_state_norm del: add_state.simps)
  apply (subst blocks.simps)
  apply simp
  done

lemma hmac_example:
  "EncodeToString (hmac_sha256 ''secret'' ''1700000000.{}'')
     = ''b8569b78799ff9e3cbff0fc2d63a33a2b57f3282abd07c37ae5e8e7d79a5f163''"
proof -
  have k: "(if length ''secret'' > 64 then sha256 ''secret'' else ''secret'') = ''secret''"
    by simp
  have "hmac_sha256 ''secret'' ''1700000000.{}''
          = digest_bytes (0xB8569B78, 0x799FF9E3, 0xCBFF0FC2, 0xD63A33A2,
      0xB57F3282, 0xABD07C37, 0xAE5E8E7D, 0x79A5F163)"
    apply (simp only: hmac_sha256_def Let_def k)
    apply (subst (2) sha256_def)
    apply (simp only: inner_state)
    apply (simp only: sha256_def outer_state)
    done
  then show ?thesis
    by (simp add: word_bytes_def hextable_def)
qed

section \<open>Properties of signature verification\<close>

lemma Sprint_d_example: "Sprint_d 1700000000 = ''1700000000''"
  by (simp add: Sprint_d_def digits.simps digitChar_def char_of_eq_iff)

lemma parsePairs_unparseable:
  assumes "\<exists>pair \<in> set pairs. \<not> parseablePair pair"
  shows "snd (parsePairs pairs sh) = Some ErrInvalidHeader"
  using assms
proof (induction pairs arbitrary: sh)
  case Nil
  then show ?case by simp
next
  case (Cons pair pairs)
  show ?case
  proof (cases "parseablePair pair")
    case False
    then show ?thesis
      by (auto simp: parseablePair_def Let_def simp del: Split.simps split: option.splits)
  next
    case True
    with Cons.prems have "\<exists>pair \<in> set pairs. \<not> parseablePair pair" by auto
    then have "\<And>sh. snd (parsePairs pairs sh) = Some ErrInvalidHeader"
      by (rule Cons.IH)
    then show ?thesis
      by (simp add: Let_def del: Split.simps split: option.splits)
  qed
qed

lemma parsePairs_unsigned:
  assumes "\<forall>pair \<in> set pairs. parseablePair pair \<and> Split pair (CHR ''='') ! 0 \<noteq> signingVersion"
  shows "snd (parsePairs pairs sh) = None \<and> signature (fst (parsePairs pairs sh)) = signature sh"
  using assms
proof (induction pairs arbitrary: sh)
  case Nil
  then show ?case by simp
next
  case (Cons pair pairs)
  then have ih: "\<And>sh. snd (parsePairs pairs sh) = None
                   \<and> signature (fst (parsePairs pairs sh)) = signature sh"
    by simp
  from Cons.prems have ok: "parseablePair pair" "Split pair (CHR ''='') ! 0 \<noteq> signingVersion"
    by simp_all
  show ?case
  proof (cases "Split pair (CHR ''='') ! 0 = ''t''")
    case True
    with ok obtain ts where "ParseInt (Split pair (CHR ''='') ! 1) = Some ts"
      by (auto simp: parseablePair_def Let_def)
    with True ok ih [of "sh\<lparr>timestamp := ts\<rparr>"] show ?thesis
      by (simp add: parseablePair_def Let_def del: Split.simps)
  next
    case False
    with ok ih [of sh] show ?thesis
      by (simp add: parseablePair_def Let_def del: Split.simps)
  qed
qed


lemma validatePayload_parse_error:
  "snd (parseSignatureHeader header) = Some err \<Longrightarrow> validatePayload payload header secret = Some err"
  by (cases "parseSignatureHeader header") (simp add: validatePayload_def)

text \<open>
  C6, as the code has it. An absent (empty) header yields \<^verbatim>\<open>ErrNotSigned\<close>; a header with
  a pair that does not parse (not exactly one \<^verbatim>\<open>=\<close>, or a \<^verbatim>\<open>t\<close> value that is not a
  decimal number in range) yields \<^verbatim>\<open>ErrInvalidHeader\<close>; a header of parseable pairs none
  of which has the key \<^verbatim>\<open>v1\<close> yields \<^verbatim>\<open>ErrNoValidSignature\<close>; the three values are
  distinct. A digest mismatch after successful parsing yields \<^verbatim>\<open>ErrNoValidSignature\<close>
  again.
\<close>

theorem signature_failure_kinds:
  "validatePayload payload [] secret = Some ErrNotSigned
   \<and> (header \<noteq> [] \<and> (\<exists>pair \<in> set (Split header (CHR '','')). \<not> parseablePair pair)
        \<longrightarrow> validatePayload payload header secret = Some ErrInvalidHeader)
   \<and> (header \<noteq> []
        \<and> (\<forall>pair \<in> set (Split header (CHR '','')).
              parseablePair pair \<and> Split pair (CHR ''='') ! 0 \<noteq> signingVersion)
        \<longrightarrow> validatePayload payload header secret = Some ErrNoValidSignature)
   \<and> (parseSignatureHeader header = (sh, None)
        \<and> computeSignature (timestamp sh) payload secret \<noteq> signature sh
        \<longrightarrow> validatePayload payload header secret = Some ErrNoValidSignature)
   \<and> ErrNotSigned \<noteq> ErrInvalidHeader \<and> ErrInvalidHeader \<noteq> ErrNoValidSignature
   \<and> ErrNotSigned \<noteq> ErrNoValidSignature"
proof (intro conjI impI)
  show "validatePayload payload [] secret = Some ErrNotSigned"
    by (simp add: validatePayload_def parseSignatureHeader_def)
next
  assume h: "header \<noteq> [] \<and> (\<exists>pair \<in> set (Split header (CHR '','')). \<not> parseablePair pair)"
  then have "snd (parsePairs (Split header (CHR '','')) zeroHeader) = Some ErrInvalidHeader"
    by (intro parsePairs_unparseable) simp
  with h have "snd (parseSignatureHeader header) = Some ErrInvalidHeader"
    by (cases "parsePairs (Split header (CHR '','')) zeroHeader")
       (simp add: parseSignatureHeader_def)
  then show "validatePayload payload header secret = Some ErrInvalidHeader"
    by (rule validatePayload_parse_error)
next
  assume h: "header \<noteq> []
        \<and> (\<forall>pair \<in> set (Split header (CHR '','')).
              parseablePair pair \<and> Split pair (CHR ''='') ! 0 \<noteq> signingVersion)"
  then have "snd (parsePairs (Split header (CHR '','')) zeroHeader) = None
             \<and> signature (fst (parsePairs (Split header (CHR '','')) zeroHeader)) = signature zeroHeader"
    by (intro parsePairs_unsigned) simp
  with h have "snd (parseSignatureHeader header) = Some ErrNoValidSignature"
    by (cases "parsePairs (Split header (CHR '','')) zeroHeader")
       (simp add: parseSignatureHeader_def zeroHeader_def)
  then show "validatePayload payload header secret = Some ErrNoValidSignature"
    by (rule validatePayload_parse_error)
next
  assume "parseSignatureHeader header = (sh, None)
        \<and> computeSignature (timestamp sh) payload secret \<noteq> signature sh"
  then show "validatePayload payload header secret = Some ErrNoValidSignature"
    by (simp add: validatePayload_def)
qed simp_all

lemma computeSignature_not_one_byte: "computeSignature t payload secret \<noteq> [c]"
  using length_hmac_sha256 [of secret "Sprint_d t @ ''.'' @ payload"]
  by (auto simp: computeSignature_def)

lemma parse_examples:
  "parseSignatureHeader ''t=1,v1=00'' = (\<lparr>timestamp = 1, signature = [char_of (0 :: nat)]\<rparr>, None)"
  "parseSignatureHeader ''t=1'' = (\<lparr>timestamp = 1, signature = []\<rparr>, Some ErrNoValidSignature)"
  "parseSignatureHeader ''t=abc,v1=00'' = (zeroHeader, Some ErrInvalidHeader)"
  by (simp_all add: parseSignatureHeader_def zeroHeader_def ParseInt_def digitVal_def
        fromHexChar_def signingVersion_def)

text \<open>
  C6 as stated fails: \<^verbatim>\<open>t=1,v1=00\<close> parses, its one-byte digest does not match, and
  the error is the one that \<^verbatim>\<open>t=1\<close>, a header without any signature, gets.
\<close>

theorem mismatch_is_no_valid_signature:
  "snd (parseSignatureHeader ''t=1,v1=00'') = None
   \<and> validatePayload ''{}'' ''t=1,v1=00'' ''secret'' = Some ErrNoValidSignature
   \<and> snd (parseSignatureHeader ''t=1'') = Some ErrNoValidSignature
   \<and> validatePayload ''{}'' ''t=1'' ''secret'' = Some ErrNoValidSignature"
  by (simp add: validatePayload_def parse_examples computeSignature_not_one_byte)

theorem signature_failure_kinds_witness:
  "validatePayload ''{}'' [] ''secret'' = Some ErrNotSigned
   \<and> validatePayload ''{}'' ''t=abc,v1=00'' ''secret'' = Some ErrInvalidHeader
   \<and> validatePayload ''{}'' ''t=1'' ''secret'' = Some ErrNoValidSignature
   \<and> validatePayload ''{}'' ''t=1,v1=00'' ''secret'' = Some ErrNoValidSignature"
  using signature_failure_kinds [of "''{}''" "''secret''" "''t=abc,v1=00''" zeroHeader]
    signature_failure_kinds [of "''{}''" "''secret''" "''t=1''" zeroHeader]
    signature_failure_kinds [of "''{}''" "''secret''" "''t=1,v1=00''"
       "\<lparr>timestamp = 1, signature = [char_of (0 :: nat)]\<rparr>"]
  by (simp add: parse_examples computeSignature_not_one_byte parseablePair_def ParseInt_def
        digitVal_def signingVersion_def)

text \<open>
  C2, as the code has it. For a timestamp \<open>t\<close> in the signed 64-bit range, the header
  \<^verbatim>\<open>t=<t>,v1=<hex of HMAC-SHA256(secret, "<t>." + payload)>\<close> verifies the payload. Another
  payload verifies against it exactly when its digest is the same, so it fails
  whenever the digest differs. A header with another digest string (free of \<^verbatim>\<open>,\<close> and
  \<^verbatim>\<open>=\<close>) verifies exactly when the string decodes to the digest's bytes: it fails when
  a digit changes the decoded bytes, and still verifies when only the case of a digit
  changes.
\<close>

theorem signed_header_verifies:
  assumes "- (2 ^ 63) \<le> t" and "t < 2 ^ 63"
  shows "validatePayload payload (signatureHeader secret t payload) secret = None
         \<and> (validatePayload payload' (signatureHeader secret t payload) secret = None
              \<longleftrightarrow> computeSignature t payload' secret = computeSignature t payload secret)
         \<and> (CHR '','' \<notin> set digest \<and> CHR ''='' \<notin> set digest \<longrightarrow>
              (validatePayload payload (''t='' @ Sprint_d t @ '',v1='' @ digest) secret = None
               \<longleftrightarrow> DecodeString digest = Some (computeSignature t payload secret)))"
proof -
  let ?d = "EncodeToString (computeSignature t payload secret)"
  have d: "CHR '','' \<notin> set ?d" "CHR ''='' \<notin> set ?d"
    by (rule EncodeToString_no_comma, rule EncodeToString_no_equals)
  have v: "validatePayload p (signatureHeader secret t payload) secret = None
           \<longleftrightarrow> computeSignature t p secret = computeSignature t payload secret" for p
    unfolding signatureHeader_def
    using validate_t_v1 [OF assms d, of p secret]
    by (auto simp only: DecodeString_EncodeToString option.inject)
  show ?thesis
    using v [of payload] v [of payload'] validate_t_v1 [OF assms, of digest payload secret]
    by simp
qed

theorem signed_header_verifies_witness:
  "validatePayload ''{}'' (signatureHeader ''secret'' 1700000000 ''{}'') ''secret'' = None
   \<and> validatePayload ''{}''
        (''t='' @ Sprint_d 1700000000 @ '',v1=''
           @ ''0000000000000000000000000000000000000000000000000000000000000000'')
        ''secret'' \<noteq> None"
proof -
  let ?mac = "computeSignature 1700000000 ''{}'' ''secret''"
  have enc: "EncodeToString ?mac
               = ''b8569b78799ff9e3cbff0fc2d63a33a2b57f3282abd07c37ae5e8e7d79a5f163''"
    by (simp add: computeSignature_def Sprint_d_example hmac_example)
  have "DecodeString ''b8569b78799ff9e3cbff0fc2d63a33a2b57f3282abd07c37ae5e8e7d79a5f163''
          = Some ?mac"
    using DecodeString_EncodeToString [of ?mac] by (simp only: enc)
  moreover have
    "DecodeString ''0000000000000000000000000000000000000000000000000000000000000000''
       \<noteq> DecodeString ''b8569b78799ff9e3cbff0fc2d63a33a2b57f3282abd07c37ae5e8e7d79a5f163''"
    by (simp add: fromHexChar_def)
  ultimately have
    "DecodeString ''0000000000000000000000000000000000000000000000000000000000000000''
       \<noteq> Some ?mac"
    by simp
  then show ?thesis
    using signed_header_verifies [of 1700000000 "''{}''" "''secret''" "''{}''"
        "''0000000000000000000000000000000000000000000000000000000000000000''"]
    by simp
qed

text \<open>
  Digests have 32 bytes and payloads are unbounded, so two payloads share a digest; the
  second of them verifies against the header of the first.
\<close>

lemma colliding_payloads:
  "\<exists>payload payload'. payload' \<noteq> payload
      \<and> computeSignature t payload' secret = computeSignature t payload secret"
proof (rule ccontr)
  assume "\<not> ?thesis"
  then have "inj (\<lambda>payload. computeSignature t payload secret)"
    by (auto simp: inj_on_def)
  moreover have "range (\<lambda>payload. computeSignature t payload secret) \<subseteq> {xs. set xs \<subseteq> UNIV \<and> length xs = 32}"
    by (auto simp: computeSignature_def length_hmac_sha256)
  then have "finite (range (\<lambda>payload. computeSignature t payload secret))"
    using finite_lists_length_eq [of "UNIV :: char set" 32] by (rule finite_subset) simp
  ultimately have "finite (UNIV :: char list set)"
    by (rule finite_imageD [rotated])
  then show False
    using infinite_UNIV_listI by blast
qed

lemma colliding_payload_verifies:
  assumes "- (2 ^ 63) \<le> t" and "t < 2 ^ 63"
  shows "\<exists>payload payload'. payload' \<noteq> payload
           \<and> validatePayload payload' (signatureHeader secret t payload) secret = None"
proof -
  obtain payload payload' where neq: "payload' \<noteq> payload"
    and eq: "computeSignature t payload' secret = computeSignature t payload secret"
    using colliding_payloads by blast
  have "CHR '','' \<notin> set (EncodeToString (computeSignature t payload secret))"
       "CHR ''='' \<notin> set (EncodeToString (computeSignature t payload secret))"
    by (rule EncodeToString_no_comma, rule EncodeToString_no_equals)
  with assms have "validatePayload payload' (signatureHeader secret t payload) secret = None"
    unfolding signatureHeader_def
    by (subst validate_t_v1) (simp_all add: DecodeString_EncodeToString eq)
  with neq show ?thesis by blast
qed

text \<open>
  C2 as stated fails: the header for secret \<^verbatim>\<open>secret\<close>, timestamp 1700000000 and payload
  \<^verbatim>\<open>{}\<close> starts its digest with \<^verbatim>\<open>b\<close>; with \<^verbatim>\<open>B\<close> in its place the header differs
  in one digit and still verifies. And for that secret and timestamp some payload
  verifies against the header of a different one.
\<close>

theorem tampering_not_always_detected:
  "signatureHeader ''secret'' 1700000000 ''{}''
     = ''t=1700000000,v1=b8569b78799ff9e3cbff0fc2d63a33a2b57f3282abd07c37ae5e8e7d79a5f163''
   \<and> validatePayload ''{}''
        ''t=1700000000,v1=B8569b78799ff9e3cbff0fc2d63a33a2b57f3282abd07c37ae5e8e7d79a5f163''
        ''secret'' = None
   \<and> (\<exists>payload payload'. payload' \<noteq> payload
         \<and> validatePayload payload' (signatureHeader ''secret'' 1700000000 payload) ''secret''
             = None)"
proof -
  let ?mac = "computeSignature 1700000000 ''{}'' ''secret''"
  have enc: "EncodeToString ?mac
               = ''b8569b78799ff9e3cbff0fc2d63a33a2b57f3282abd07c37ae5e8e7d79a5f163''"
    by (simp add: computeSignature_def Sprint_d_example hmac_example)
  have "DecodeString ''b8569b78799ff9e3cbff0fc2d63a33a2b57f3282abd07c37ae5e8e7d79a5f163''
          = Some ?mac"
    using DecodeString_EncodeToString [of ?mac] by (simp only: enc)
  moreover have
    "DecodeString ''B8569b78799ff9e3cbff0fc2d63a33a2b57f3282abd07c37ae5e8e7d79a5f163''
       = DecodeString ''b8569b78799ff9e3cbff0fc2d63a33a2b57f3282abd07c37ae5e8e7d79a5f163''"
    by (simp add: fromHexChar_def)
  ultimately have dec:
    "DecodeString ''B8569b78799ff9e3cbff0fc2d63a33a2b57f3282abd07c37ae5e8e7d79a5f163''
       = Some ?mac"
    by simp
  have "validatePayload ''{}''
          (''t='' @ Sprint_d 1700000000 @ '',v1=''
             @ ''B8569b78799ff9e3cbff0fc2d63a33a2b57f3282abd07c37ae5e8e7d79a5f163'')
          ''secret'' = None"
    using dec by (subst validate_t_v1) simp_all
  moreover have "\<exists>payload payload'. payload' \<noteq> payload
         \<and> validatePayload payload' (signatureHeader ''secret'' 1700000000 payload) ''secret''
             = None"
    by (rule colliding_payload_verifies) simp_all
  ultimately show ?thesis
    by (simp add: signatureHeader_def enc Sprint_d_example)
qed

section \<open>Loops of the hub client, requests and logs\<close>

lemma hasCapabilityLoop_iff:
  "hasCapabilityLoop caps n \<longleftrightarrow> AnyString n \<in> set caps"
  by (induction caps) (auto simp: anyEq_def)

lemma hasCommandLoop_iff: "hasCommandLoop cmds n \<longleftrightarrow> n \<in> set cmds"
  by (induction cmds) auto

lemma alreadyInDesiredState_iff:
  "alreadyInDesiredState attrs n v \<longleftrightarrow>
     (\<exists>attr \<in> set attrs. attr ''name'' = Some (AnyString n) \<and> attr ''currentValue'' = Some (AnyString v))"
  by (induction attrs) (auto simp: anyEq_def)

lemma calls_request [simp]: "calls (request c s) = calls s @ [c]"
  by (simp add: request_def)

lemma logs_request [simp]: "logs (request c s) = logs s"
  by (simp add: request_def)

lemma calls_logger [simp]: "calls (logger lvl msg s) = calls s"
  by (simp add: logger_def)

lemma logs_logger [simp]: "logs (logger lvl msg s) = logs s @ [(lvl, msg)]"
  by (simp add: logger_def)

section \<open>Properties of the assertion primitives\<close>

text \<open>What one invocation of the assertion primitive sends.\<close>

lemma assertDeviceState_calls:
  "calls (snd (assertDeviceState c deviceID capability command attributeName desiredValue s))
     = calls s @ [HubGetDeviceInfo deviceID]
   \<or> calls (snd (assertDeviceState c deviceID capability command attributeName desiredValue s))
     = calls s @ [HubGetDeviceInfo deviceID, HubSendDeviceCommand deviceID command []]"
  by (auto simp: assertDeviceState_def GetDeviceInfo_def sendDeviceCommand_def
           split: sum.splits option.splits)

lemma assertDeviceState_logs:
  "logs (snd (assertDeviceState c deviceID capability command attributeName desiredValue s)) = logs s"
  by (auto simp: assertDeviceState_def GetDeviceInfo_def sendDeviceCommand_def
           split: sum.splits option.splits)











text \<open>
  C10. When the capability and command checks pass and no attribute entry of the
  fetched device is named \<open>attributeName\<close>, the command is sent, and the result is
  that of sending it: never one of the two configuration errors.
\<close>

theorem missing_attribute_sends_command:
  assumes "getDeviceInfoResponse c (calls s) deviceID = Inr deviceInfo"
    and "hasCapability deviceInfo capability"
    and "hasCommand deviceInfo command"
    and "\<forall>attr \<in> set (Attributes deviceInfo). attr ''name'' \<noteq> Some (AnyString attributeName)"
  shows "assertDeviceState c deviceID capability command attributeName desiredValue s
           = (map_option (SendCommandFailed command deviceID)
                (sendDeviceCommandResponse c (calls s @ [HubGetDeviceInfo deviceID]) deviceID command []),
              request (HubSendDeviceCommand deviceID command [])
                (request (HubGetDeviceInfo deviceID) s))
         \<and> fst (assertDeviceState c deviceID capability command attributeName desiredValue s)
             \<noteq> Some (NoCapability deviceID capability)
         \<and> fst (assertDeviceState c deviceID capability command attributeName desiredValue s)
             \<noteq> Some (NoCommand deviceID command)"
proof -
  have "\<not> alreadyInDesiredState (Attributes deviceInfo) attributeName desiredValue"
    using assms(4) by (auto simp: alreadyInDesiredState_iff)
  then show ?thesis
    using assms(1-3)
    by (auto simp: assertDeviceState_def GetDeviceInfo_def sendDeviceCommand_def
             split: option.splits)
qed

theorem missing_attribute_sends_command_witness:
  "assertDeviceState (fixedHub (Inr (switchOn [AnyString ''Switch''])) None)
       ''12'' ''Switch'' ''on'' ''level'' ''on'' state0
     = (None, \<lparr>calls = [HubGetDeviceInfo ''12'', HubSendDeviceCommand ''12'' ''on'' []], logs = []\<rparr>)"
  using missing_attribute_sends_command
      [of "fixedHub (Inr (switchOn [AnyString ''Switch''])) None" state0 "''12''"
          "switchOn [AnyString ''Switch'']" "''Switch''" "''on''" "''level''" "''on''"]
  by (simp add: fixedHub_def switchOn_def hasCapability_def hasCommand_def anyEq_def
        state0_def request_def)

section \<open>Properties of the event router\<close>

text \<open>
  C1. A door-unlock event whose actor is the middleware itself (type \<^verbatim>\<open>open-api\<close>, name
  \<^verbatim>\<open>unifi-access-hubitat-middleware\<close>), or whose result is not \<^verbatim>\<open>Access Granted\<close>,
  sends no request at all.
\<close>

theorem own_unlock_events_issue_no_call:
  assumes "Event evt = ''access.door.unlock''"
    and "unmarshalUnlock a (Data evt) = Inr payload"
    and "(Actor_Type payload = ''open-api''
          \<and> Actor_Name payload = ''unifi-access-hubitat-middleware'')
         \<or> Object_Result payload \<noteq> ''Access Granted''"
  shows "calls (handleUacEvent a evt s) = calls s"
  using assms by (auto simp: handleUacEvent_def handleUnlock_def Let_def)

theorem own_unlock_events_issue_no_call_witness:
  "calls (handleUacEvent
            (exampleApp (fixedHub (Inr (switchOn [AnyString ''Switch''])) None)
               (fixedUac [uacDoor ''door-1'' ''lock'' ''close''] \<lparr>RuleType = []\<rparr>)
               (unlockBy ''open-api'' ''unifi-access-hubitat-middleware'' ''Access Granted'')
               (dpsChange ''open''))
            (uacEvent ''access.door.unlock'') state0) = []
   \<and> calls (handleUacEvent
            (exampleApp (fixedHub (Inr (switchOn [AnyString ''Switch''])) None)
               (fixedUac [uacDoor ''door-1'' ''lock'' ''close''] \<lparr>RuleType = []\<rparr>)
               (unlockBy ''user'' ''someone'' ''Access Denied'')
               (dpsChange ''open''))
            (uacEvent ''access.door.unlock'') state0) = []"
  using own_unlock_events_issue_no_call
      [of "uacEvent ''access.door.unlock''"
          "exampleApp (fixedHub (Inr (switchOn [AnyString ''Switch''])) None)
               (fixedUac [uacDoor ''door-1'' ''lock'' ''close''] \<lparr>RuleType = []\<rparr>)
               (unlockBy ''open-api'' ''unifi-access-hubitat-middleware'' ''Access Granted'')
               (dpsChange ''open'')"
          "unlockBy ''open-api'' ''unifi-access-hubitat-middleware'' ''Access Granted''" state0]
    own_unlock_events_issue_no_call
      [of "uacEvent ''access.door.unlock''"
          "exampleApp (fixedHub (Inr (switchOn [AnyString ''Switch''])) None)
               (fixedUac [uacDoor ''door-1'' ''lock'' ''close''] \<lparr>RuleType = []\<rparr>)
               (unlockBy ''user'' ''someone'' ''Access Denied'')
               (dpsChange ''open'')"
          "unlockBy ''user'' ''someone'' ''Access Denied''" state0]
  by (simp add: uacEvent_def exampleApp_def unlockBy_def state0_def)


section \<open>Properties of the polling reconciler\<close>

lemma assertionsOn_append [simp]:
  "assertionsOn L (cs @ ds) = assertionsOn L cs + assertionsOn L ds"
  by (simp add: assertionsOn_def)

lemma assertionsOn_assertDeviceState:
  "assertionsOn L (calls (snd (assertDeviceState c deviceID capability command attributeName desiredValue s)))
     = assertionsOn L (calls s) + (if deviceID = L then 1 else 0)"
  using assertDeviceState_calls [of c deviceID capability command attributeName desiredValue s]
  by (auto simp: assertionsOn_def)

lemma assertionsOn_logFailure:
  "assertionsOn L (calls (logFailure msg (assertDeviceState c deviceID capability command attributeName desiredValue s)))
     = assertionsOn L (calls s) + (if deviceID = L then 1 else 0)"
  using assertionsOn_assertDeviceState [of L c deviceID capability command attributeName desiredValue s]
  by (cases "assertDeviceState c deviceID capability command attributeName desiredValue s")
     (auto simp: logFailure_def split: option.splits)

lemma recordLockRuleState_eq:
  "currState = ''locked'' \<or> currState = ''unlocked'' \<Longrightarrow>
   recordLockRuleState a door lockID currState states s =
     (if currState \<noteq> states (UacID door)
      then (states(UacID door := currState),
            if currState = ''locked''
            then logFailure ''Failed to assert door lock locked''
                   (AssertDoorLockLocked (hubitatClient a) lockID s)
            else logFailure ''Failed to assert door lock unlocked''
                   (AssertDoorLockUnlocked (hubitatClient a) lockID s))
      else (states, s))"
  by (auto simp: recordLockRuleState_def logFailure_def Let_def)

lemma recordLockRuleState_assertions:
  assumes "currState = ''locked'' \<or> currState = ''unlocked''"
  shows "assertionsOn L (calls (snd (recordLockRuleState a door lockID currState states s)))
     = assertionsOn L (calls s) + (if currState \<noteq> states (UacID door) \<and> lockID = L then 1 else 0)"
  using assms
  by (auto simp: recordLockRuleState_eq AssertDoorLockLocked_def AssertDoorLockUnlocked_def
        assertionsOn_logFailure)

lemma recordLockRuleState_states:
  "fst (recordLockRuleState a door lockID currState states s) = states(UacID door := currState)"
  by (auto simp: recordLockRuleState_def Let_def)

lemma assertionsOn_Nil [simp]: "assertionsOn L [] = 0"
  by (simp add: assertionsOn_def)

lemma assertionsOn_Cons [simp]:
  "assertionsOn L (c # cs) = (if c = HubGetDeviceInfo L then 1 else 0) + assertionsOn L cs"
  by (simp add: assertionsOn_def)

lemma pollDoor_cases:
  "pollDoor a d states s =
     (case HubitatLockID d of
        None \<Rightarrow> (states, s)
      | Some lockID \<Rightarrow>
          (case getDoorLockRuleResponse (uacClient a) (calls s) (UacID d) of
             Inl err \<Rightarrow>
               (states, logger LevelError ''Failed to get door lock rule''
                  (request (UacGetDoorLockRule (UacID d)) s))
           | Inr rule \<Rightarrow>
               if RuleType rule = ''keep_unlock''
               then recordLockRuleState a d lockID ''unlocked'' states
                      (request (UacGetDoorLockRule (UacID d)) s)
               else if RuleType rule = []
               then recordLockRuleState a d lockID ''locked'' states
                      (request (UacGetDoorLockRule (UacID d)) s)
               else (states, logger LevelWarn ''Unknown door lock rule type''
                       (request (UacGetDoorLockRule (UacID d)) s))))"
  by (simp add: pollDoor_def GetDoorLockRule_def split: option.splits sum.splits)

lemma pollDoor_other_lock:
  assumes "HubitatLockID d \<noteq> Some L"
  shows "assertionsOn L (calls (snd (pollDoor a d states s))) = assertionsOn L (calls s)"
  using assms
  by (simp add: pollDoor_cases recordLockRuleState_assertions
           split: option.splits sum.splits)

lemma pollDoor_other_door:
  assumes "UacID d \<noteq> u"
  shows "fst (pollDoor a d states s) u = states u"
  using assms
  by (simp add: pollDoor_cases recordLockRuleState_states split: option.splits sum.splits)

lemma pollDoor_unchanged:
  assumes "\<forall>history. getDoorLockRuleResponse (uacClient a) history (UacID d) = Inr rule"
    and "(RuleType rule = ''keep_unlock'' \<and> currState = ''unlocked'')
         \<or> (RuleType rule = [] \<and> currState = ''locked'')"
    and "states (UacID d) = currState"
  shows "fst (pollDoor a d states s) = states
         \<and> assertionsOn L (calls (snd (pollDoor a d states s))) = assertionsOn L (calls s)"
proof (cases "HubitatLockID d")
  case None
  then show ?thesis by (simp add: pollDoor_cases)
next
  case (Some lockID)
  have r: "getDoorLockRuleResponse (uacClient a) (calls s) (UacID d) = Inr rule"
    using assms(1) by simp
  from assms(2) show ?thesis
  proof
    assume "RuleType rule = ''keep_unlock'' \<and> currState = ''unlocked''"
    with Some r assms(3) show ?thesis
      by (simp add: pollDoor_cases recordLockRuleState_eq)
  next
    assume "RuleType rule = [] \<and> currState = ''locked''"
    with Some r assms(3) show ?thesis
      by (simp add: pollDoor_cases recordLockRuleState_eq)
  qed
qed

lemma pollDoors_settled:
  assumes "\<forall>history. getDoorLockRuleResponse (uacClient a) history u = Inr rule"
    and "(RuleType rule = ''keep_unlock'' \<and> currState = ''unlocked'')
         \<or> (RuleType rule = [] \<and> currState = ''locked'')"
    and "\<forall>d \<in> set ds. HubitatLockID d = Some L \<longrightarrow> UacID d = u"
    and "states u = currState"
  shows "fst (pollDoors a ds states s) u = currState
         \<and> assertionsOn L (calls (snd (pollDoors a ds states s))) = assertionsOn L (calls s)"
  using assms(3,4)
proof (induction ds arbitrary: states s)
  case Nil
  then show ?case by simp
next
  case (Cons d ds)
  obtain states' s' where step: "pollDoor a d states s = (states', s')"
    by (cases "pollDoor a d states s")
  have "states' u = currState \<and> assertionsOn L (calls s') = assertionsOn L (calls s)"
  proof (cases "UacID d = u")
    case True
    have "fst (pollDoor a d states s) = states
         \<and> assertionsOn L (calls (snd (pollDoor a d states s))) = assertionsOn L (calls s)"
      using assms(1,2) Cons.prems(2) True by (intro pollDoor_unchanged) auto
    with step Cons.prems(2) show ?thesis by simp
  next
    case False
    with Cons.prems(1) have "HubitatLockID d \<noteq> Some L" by auto
    with pollDoor_other_lock [of d L a states s] pollDoor_other_door [of d u a states s]
      False step Cons.prems(2)
    show ?thesis by simp
  qed
  moreover have "\<forall>d \<in> set ds. HubitatLockID d = Some L \<longrightarrow> UacID d = u"
    using Cons.prems(1) by simp
  ultimately show ?case
    using Cons.IH [of states' s'] step by simp
qed

lemma pollTicks_settled:
  assumes "\<forall>history. getDoorLockRuleResponse (uacClient a) history u = Inr rule"
    and "(RuleType rule = ''keep_unlock'' \<and> currState = ''unlocked'') \<or> (RuleType rule = [] \<and> currState = ''locked'')"
    and "\<forall>d \<in> set (Doors a). HubitatLockID d = Some L \<longrightarrow> UacID d = u"
    and "states u = currState"
  shows "fst (pollTicks a ticks states s) u = currState
         \<and> assertionsOn L (calls (snd (pollTicks a ticks states s))) = assertionsOn L (calls s)"
  using assms(4)
proof (induction ticks arbitrary: states s)
  case 0
  then show ?case by simp
next
  case (Suc ticks)
  obtain states' s' where step: "pollDoors a (Doors a) states s = (states', s')"
    by (cases "pollDoors a (Doors a) states s")
  have "fst (pollDoors a (Doors a) states s) u = currState
         \<and> assertionsOn L (calls (snd (pollDoors a (Doors a) states s))) = assertionsOn L (calls s)"
    using assms(1,2,3) Suc.prems by (rule pollDoors_settled)
  with step
  have "states' u = currState" "assertionsOn L (calls s') = assertionsOn L (calls s)" by auto
  with Suc.IH [of states' s'] step show ?case by simp
qed



















lemma pollDoors_record:
  assumes "\<forall>history. getDoorLockRuleResponse (uacClient a) history u = Inr rule"
    and "(RuleType rule = ''keep_unlock'' \<and> currState = ''unlocked'')
         \<or> (RuleType rule = [] \<and> currState = ''locked'')"
    and "states u = currState"
  shows "fst (pollDoors a ds states s) u = currState"
  using assms(3)
proof (induction ds arbitrary: states s)
  case Nil
  then show ?case by simp
next
  case (Cons d ds)
  obtain states' s' where step: "pollDoor a d states s = (states', s')"
    by (cases "pollDoor a d states s")
  have "states' u = currState"
  proof (cases "UacID d = u")
    case True
    have "fst (pollDoor a d states s) = states
         \<and> assertionsOn u (calls (snd (pollDoor a d states s))) = assertionsOn u (calls s)"
      using assms(1,2) Cons.prems True by (intro pollDoor_unchanged) auto
    with step Cons.prems show ?thesis by simp
  next
    case False
    with pollDoor_other_door [of d u a states s] step Cons.prems show ?thesis by simp
  qed
  with Cons.IH [of states' s'] step show ?case by simp
qed

lemma pollTicks_record:
  assumes "\<forall>history. getDoorLockRuleResponse (uacClient a) history u = Inr rule"
    and "(RuleType rule = ''keep_unlock'' \<and> currState = ''unlocked'')
         \<or> (RuleType rule = [] \<and> currState = ''locked'')"
    and "states u = currState"
  shows "fst (pollTicks a ticks states s) u = currState"
  using assms(3)
proof (induction ticks arbitrary: states s)
  case 0
  then show ?case by simp
next
  case (Suc ticks)
  obtain states' s' where step: "pollDoors a (Doors a) states s = (states', s')"
    by (cases "pollDoors a (Doors a) states s")
  have "fst (pollDoors a (Doors a) states s) u = currState"
    using assms(1,2) Suc.prems by (rule pollDoors_record)
  with step have "states' u = currState" by simp
  with Suc.IH [of states' s'] step show ?case by simp
qed

text \<open>
  C9. When the translated state differs from the record, the record is set to the new
  state whatever the assertion returns (a failure is only logged). From then on, as
  long as the controller keeps answering with the same rule: an iteration for this door
  sends nothing to the hub; the record keeps the state through the rest of the tick and
  through any number of later ticks; and, where the lock device belongs to this door
  only, no later tick adds an assertion on it.
\<close>

theorem failed_assertion_not_reissued:
  assumes "HubitatLockID door = Some lockID"
    and "\<forall>history. getDoorLockRuleResponse (uacClient a) history (UacID door) = Inr rule"
    and "(RuleType rule = ''keep_unlock'' \<and> currState = ''unlocked'')
         \<or> (RuleType rule = [] \<and> currState = ''locked'')"
    and "states (UacID door) \<noteq> currState"
  shows "pollDoor a door states s =
           (states(UacID door := currState),
            if currState = ''locked''
            then logFailure ''Failed to assert door lock locked''
                   (AssertDoorLockLocked (hubitatClient a) lockID
                      (request (UacGetDoorLockRule (UacID door)) s))
            else logFailure ''Failed to assert door lock unlocked''
                   (AssertDoorLockUnlocked (hubitatClient a) lockID
                      (request (UacGetDoorLockRule (UacID door)) s)))
         \<and> (\<forall>states' s'. states' (UacID door) = currState \<longrightarrow>
               pollDoor a door states' s'
                 = (states', request (UacGetDoorLockRule (UacID door)) s'))
         \<and> (\<forall>ds states' s'. states' (UacID door) = currState \<longrightarrow>
               fst (pollDoors a ds states' s') (UacID door) = currState)
         \<and> (\<forall>ticks states' s'. states' (UacID door) = currState \<longrightarrow>
               fst (pollTicks a ticks states' s') (UacID door) = currState)
         \<and> ((\<forall>d \<in> set (Doors a). HubitatLockID d = Some lockID \<longrightarrow> UacID d = UacID door) \<longrightarrow>
             (\<forall>ticks states' s'. states' (UacID door) = currState \<longrightarrow>
                assertionsOn lockID (calls (snd (pollTicks a ticks states' s')))
                  = assertionsOn lockID (calls s')))"
proof (intro conjI allI impI)
  have r: "getDoorLockRuleResponse (uacClient a) (calls s) (UacID door) = Inr rule"
    using assms(2) by simp
  from assms(3) show "pollDoor a door states s =
           (states(UacID door := currState),
            if currState = ''locked''
            then logFailure ''Failed to assert door lock locked''
                   (AssertDoorLockLocked (hubitatClient a) lockID
                      (request (UacGetDoorLockRule (UacID door)) s))
            else logFailure ''Failed to assert door lock unlocked''
                   (AssertDoorLockUnlocked (hubitatClient a) lockID
                      (request (UacGetDoorLockRule (UacID door)) s)))"
  proof
    assume "RuleType rule = ''keep_unlock'' \<and> currState = ''unlocked''"
    with assms(1,4) r show ?thesis by (simp add: pollDoor_cases recordLockRuleState_eq)
  next
    assume "RuleType rule = [] \<and> currState = ''locked''"
    with assms(1,4) r show ?thesis by (simp add: pollDoor_cases recordLockRuleState_eq)
  qed
next
  fix states' :: lockRuleStates and s' :: state
  assume h: "states' (UacID door) = currState"
  have r: "getDoorLockRuleResponse (uacClient a) (calls s') (UacID door) = Inr rule"
    using assms(2) by simp
  from assms(3) show "pollDoor a door states' s'
                 = (states', request (UacGetDoorLockRule (UacID door)) s')"
  proof
    assume "RuleType rule = ''keep_unlock'' \<and> currState = ''unlocked''"
    with assms(1) h r show ?thesis by (simp add: pollDoor_cases recordLockRuleState_eq)
  next
    assume "RuleType rule = [] \<and> currState = ''locked''"
    with assms(1) h r show ?thesis by (simp add: pollDoor_cases recordLockRuleState_eq)
  qed
next
  fix ds states' s'
  assume "states' (UacID door) = currState"
  with assms(2,3) show "fst (pollDoors a ds states' s') (UacID door) = currState"
    by (rule pollDoors_record)
next
  fix ticks states' s'
  assume "states' (UacID door) = currState"
  with assms(2,3) show "fst (pollTicks a ticks states' s') (UacID door) = currState"
    by (rule pollTicks_record)
next
  fix ticks states' s'
  assume own: "\<forall>d \<in> set (Doors a). HubitatLockID d = Some lockID \<longrightarrow> UacID d = UacID door"
    and h: "states' (UacID door) = currState"
  have "fst (pollTicks a ticks states' s') (UacID door) = currState
        \<and> assertionsOn lockID (calls (snd (pollTicks a ticks states' s')))
            = assertionsOn lockID (calls s')"
    using assms(2,3) own h by (rule pollTicks_settled)
  then show "assertionsOn lockID (calls (snd (pollTicks a ticks states' s')))
            = assertionsOn lockID (calls s')"
    by simp
qed


theorem failed_assertion_not_reissued_witness:
  "pollDoor (exampleApp (fixedHub (Inl ''connection refused'') (Some ''connection refused''))
               (fixedUac [uacDoor ''door-1'' ''lock'' ''close''] \<lparr>RuleType = []\<rparr>)
               (unlockBy ''user'' ''someone'' ''Access Granted'') (dpsChange ''open''))
       door1 (\<lambda>doorID. []) state0
     = ((\<lambda>doorID. [])(''door-1'' := ''locked''),
        \<lparr>calls = [UacGetDoorLockRule ''door-1'', HubGetDeviceInfo ''11''],
          logs = [(LevelError, ''Failed to assert door lock locked'')]\<rparr>)
   \<and> pollDoor (exampleApp (fixedHub (Inl ''connection refused'') (Some ''connection refused''))
               (fixedUac [uacDoor ''door-1'' ''lock'' ''close''] \<lparr>RuleType = []\<rparr>)
               (unlockBy ''user'' ''someone'' ''Access Granted'') (dpsChange ''open''))
       door1 ((\<lambda>doorID. [])(''door-1'' := ''locked''))
       \<lparr>calls = [UacGetDoorLockRule ''door-1'', HubGetDeviceInfo ''11''],
         logs = [(LevelError, ''Failed to assert door lock locked'')]\<rparr>
     = ((\<lambda>doorID. [])(''door-1'' := ''locked''),
        \<lparr>calls = [UacGetDoorLockRule ''door-1'', HubGetDeviceInfo ''11'',
                   UacGetDoorLockRule ''door-1''],
          logs = [(LevelError, ''Failed to assert door lock locked'')]\<rparr>)
   \<and> assertionsOn ''11''
        (calls (snd (pollTicks
           (exampleApp (fixedHub (Inl ''connection refused'') (Some ''connection refused''))
               (fixedUac [uacDoor ''door-1'' ''lock'' ''close''] \<lparr>RuleType = []\<rparr>)
               (unlockBy ''user'' ''someone'' ''Access Granted'') (dpsChange ''open''))
           7 ((\<lambda>doorID. [])(''door-1'' := ''locked''))
           \<lparr>calls = [UacGetDoorLockRule ''door-1'', HubGetDeviceInfo ''11''],
             logs = [(LevelError, ''Failed to assert door lock locked'')]\<rparr>))) = 1"
  using failed_assertion_not_reissued
      [of door1 "''11''"
          "exampleApp (fixedHub (Inl ''connection refused'') (Some ''connection refused''))
               (fixedUac [uacDoor ''door-1'' ''lock'' ''close''] \<lparr>RuleType = []\<rparr>)
               (unlockBy ''user'' ''someone'' ''Access Granted'') (dpsChange ''open'')"
          "\<lparr>RuleType = []\<rparr>" "''locked''" "\<lambda>doorID. []" state0]
  by (simp add: door1_def exampleApp_def fixedUac_def fixedHub_def state0_def
        logFailure_def AssertDoorLockLocked_def assertDeviceState_def GetDeviceInfo_def
        request_def logger_def)

section \<open>The contact sensor and the startup pass at concrete inputs\<close>

text \<open>
  C4, at a closed door. The status \<^verbatim>\<open>close\<close> is routed to
  \<^verbatim>\<open>AssertDoorContactClosed\<close>, whose desired value is \<^verbatim>\<open>close\<close>: a contact sensor
  that already reports \<^verbatim>\<open>closed\<close> is sent the \<^verbatim>\<open>close\<close> command again, where an
  assertion to \<^verbatim>\<open>closed\<close> sends nothing.
\<close>

theorem closed_contact_is_commanded_again:
  "handleUacEvent
       (exampleApp (fixedHub (Inr (contactSensor ''closed'')) None)
          (fixedUac [uacDoor ''door-1'' ''lock'' ''close''] \<lparr>RuleType = []\<rparr>)
          (unlockBy ''user'' ''someone'' ''Access Granted'') (dpsChange ''close''))
       (uacEvent ''access.device.dps_status'') state0
     = \<lparr>calls = [HubGetDeviceInfo ''10'', HubSendDeviceCommand ''10'' ''close'' []],
        logs = [(LevelInfo, ''Received UAC Event'')]\<rparr>
   \<and> assertDeviceState (fixedHub (Inr (contactSensor ''closed'')) None)
       ''10'' ''ContactSensor'' ''close'' ''contact'' ''closed'' state0
     = (None, \<lparr>calls = [HubGetDeviceInfo ''10''], logs = []\<rparr>)"
  by (simp add: handleUacEvent_def handleDpsStatus_def uacEvent_def exampleApp_def dpsChange_def
        door1_def AssertDoorContactClosed_def assertDeviceState_def GetDeviceInfo_def
        sendDeviceCommand_def fixedHub_def contactSensor_def hasCapability_def hasCommand_def
        anyEq_def state0_def request_def logger_def)

text \<open>
  C5, at a door list with an unmapped door. The startup loop returns from
  \<^verbatim>\<open>pollUacStates\<close> at the first door without a mapping: the configured door behind it
  is never asserted and no tick runs. With the two doors in the other order the
  configured door is asserted first.
\<close>

theorem snapshot_stops_at_unmapped_door:
  "pollUacStates
       (exampleApp (fixedHub (Inr (contactSensor ''closed'')) None)
          (fixedUac [uacDoor ''door-9'' ''lock'' ''close'', uacDoor ''door-1'' ''lock'' ''open'']
             \<lparr>RuleType = []\<rparr>)
          (unlockBy ''user'' ''someone'' ''Access Granted'') (dpsChange ''open''))
       2 state0
     = \<lparr>calls = [UacFetchAllDoors], logs = [(LevelWarn, ''Door not found for UAC ID'')]\<rparr>
   \<and> pollUacStates
       (exampleApp (fixedHub (Inr (contactSensor ''closed'')) None)
          (fixedUac [uacDoor ''door-1'' ''lock'' ''open'', uacDoor ''door-9'' ''lock'' ''close'']
             \<lparr>RuleType = []\<rparr>)
          (unlockBy ''user'' ''someone'' ''Access Granted'') (dpsChange ''open''))
       2 state0
     = \<lparr>calls = [UacFetchAllDoors, HubGetDeviceInfo ''10'', HubSendDeviceCommand ''10'' ''open'' []],
        logs = [(LevelWarn, ''Door not found for UAC ID'')]\<rparr>"
  by (simp add: pollUacStates_def startupSnapshot_def FetchAllDoors_def exampleApp_def
        fixedUac_def uacDoor_def door1_def AssertDoorContactOpened_def assertDeviceState_def
        GetDeviceInfo_def sendDeviceCommand_def fixedHub_def contactSensor_def hasCapability_def
        hasCommand_def anyEq_def state0_def request_def logger_def)

section \<open>Further properties of the router and of the startup pass\<close>

text \<open>
  X1. The routing of a door-position event, as the code has it: dropped unless the event
  type is \<^verbatim>\<open>dps_change\<close> and the door is configured; status \<^verbatim>\<open>open\<close> asserts the
  contact device with command and desired value \<^verbatim>\<open>open\<close>, status \<^verbatim>\<open>close\<close> with command
  and desired value \<^verbatim>\<open>close\<close>; any other status is logged and nothing is sent.
\<close>

theorem dps_status_routing:
  assumes "Event evt = ''access.device.dps_status''"
    and "unmarshalDps a (Data evt) = Inr payload"
  shows "(Object_EventType payload \<noteq> ''dps_change'' \<longrightarrow>
            calls (handleUacEvent a evt s) = calls s)
       \<and> (Object_EventType payload = ''dps_change''
            \<and> getDoorByUacID (Doors a) (dps_Location_ID payload) = None \<longrightarrow>
            calls (handleUacEvent a evt s) = calls s)
       \<and> (Object_EventType payload = ''dps_change''
            \<and> getDoorByUacID (Doors a) (dps_Location_ID payload) = Some door \<longrightarrow>
            (Object_Status payload = ''open'' \<longrightarrow>
               handleUacEvent a evt s =
                 logFailure ''Failed to assert door status in hubitat''
                   (assertDeviceState (hubitatClient a) (HubitatContactID door)
                      ''ContactSensor'' ''open'' ''contact'' ''open''
                      (logger LevelInfo ''Received UAC Event'' s)))
            \<and> (Object_Status payload = ''close'' \<longrightarrow>
               handleUacEvent a evt s =
                 logFailure ''Failed to assert door status in hubitat''
                   (assertDeviceState (hubitatClient a) (HubitatContactID door)
                      ''ContactSensor'' ''close'' ''contact'' ''close''
                      (logger LevelInfo ''Received UAC Event'' s)))
            \<and> (Object_Status payload \<noteq> ''open'' \<and> Object_Status payload \<noteq> ''close'' \<longrightarrow>
               handleUacEvent a evt s =
                 logger LevelError ''Unknown door status''
                   (logger LevelInfo ''Received UAC Event'' s)))"
  using assms
  by (simp add: handleUacEvent_def handleDpsStatus_def logFailure_def
        AssertDoorContactOpened_def AssertDoorContactClosed_def Let_def)

theorem dps_status_routing_witness:
  "handleUacEvent
       (exampleApp (fixedHub (Inr (contactSensor ''closed'')) None)
          (fixedUac [uacDoor ''door-1'' ''lock'' ''close''] \<lparr>RuleType = []\<rparr>)
          (unlockBy ''user'' ''someone'' ''Access Granted'') (dpsChange ''open''))
       (uacEvent ''access.device.dps_status'') state0
     = \<lparr>calls = [HubGetDeviceInfo ''10'', HubSendDeviceCommand ''10'' ''open'' []],
        logs = [(LevelInfo, ''Received UAC Event'')]\<rparr>
   \<and> handleUacEvent
       (exampleApp (fixedHub (Inr (contactSensor ''closed'')) None)
          (fixedUac [uacDoor ''door-1'' ''lock'' ''close''] \<lparr>RuleType = []\<rparr>)
          (unlockBy ''user'' ''someone'' ''Access Granted'') (dpsChange ''ajar''))
       (uacEvent ''access.device.dps_status'') state0
     = \<lparr>calls = [],
        logs = [(LevelInfo, ''Received UAC Event''), (LevelError, ''Unknown door status'')]\<rparr>"
  using dps_status_routing
      [of "uacEvent ''access.device.dps_status''"
          "exampleApp (fixedHub (Inr (contactSensor ''closed'')) None)
             (fixedUac [uacDoor ''door-1'' ''lock'' ''close''] \<lparr>RuleType = []\<rparr>)
             (unlockBy ''user'' ''someone'' ''Access Granted'') (dpsChange ''open'')"
          "dpsChange ''open''" state0 door1]
    dps_status_routing
      [of "uacEvent ''access.device.dps_status''"
          "exampleApp (fixedHub (Inr (contactSensor ''closed'')) None)
             (fixedUac [uacDoor ''door-1'' ''lock'' ''close''] \<lparr>RuleType = []\<rparr>)
             (unlockBy ''user'' ''someone'' ''Access Granted'') (dpsChange ''ajar'')"
          "dpsChange ''ajar''" state0 door1]
  by (simp add: uacEvent_def exampleApp_def dpsChange_def door1_def logFailure_def
        assertDeviceState_def GetDeviceInfo_def sendDeviceCommand_def fixedHub_def
        contactSensor_def hasCapability_def hasCommand_def anyEq_def state0_def request_def
        logger_def)

lemma snapshotDoors_append:
  assumes "\<forall>d \<in> set pre. getDoorByUacID (Doors a) (DoorID d) \<noteq> None"
  shows "snapshotDoors a (pre @ rest) s = snapshotDoors a rest (snd (snapshotDoors a pre s))"
  using assms
  by (induction pre arbitrary: s) auto

text \<open>
  X2. The startup pass ends \<^verbatim>\<open>pollUacStates\<close> at the first fetched door without a mapping:
  the doors before it have been asserted, the doors after it never are, and no tick
  runs, however many the ticker would deliver.
\<close>

theorem snapshot_returns_at_unmapped_door:
  assumes "\<forall>d \<in> set pre. getDoorByUacID (Doors a) (DoorID d) \<noteq> None"
    and "getDoorByUacID (Doors a) (DoorID unmapped) = None"
    and "fetchAllDoorsResponse (uacClient a) (calls s) = Inr (pre @ unmapped # post)"
  shows "pollUacStates a ticks s =
           logger LevelWarn ''Door not found for UAC ID''
             (snd (snapshotDoors a pre (request UacFetchAllDoors s)))"
  using assms
  by (simp add: pollUacStates_def startupSnapshot_def FetchAllDoors_def snapshotDoors_append)

theorem snapshot_returns_at_unmapped_door_witness:
  "pollUacStates
       (exampleApp (fixedHub (Inr (contactSensor ''closed'')) None)
          (fixedUac [uacDoor ''door-9'' ''lock'' ''close'', uacDoor ''door-1'' ''lock'' ''open'']
             \<lparr>RuleType = []\<rparr>)
          (unlockBy ''user'' ''someone'' ''Access Granted'') (dpsChange ''open''))
       5 state0
     = \<lparr>calls = [UacFetchAllDoors], logs = [(LevelWarn, ''Door not found for UAC ID'')]\<rparr>"
  using snapshot_returns_at_unmapped_door
      [of "[]"
          "exampleApp (fixedHub (Inr (contactSensor ''closed'')) None)
             (fixedUac [uacDoor ''door-9'' ''lock'' ''close'', uacDoor ''door-1'' ''lock'' ''open'']
                \<lparr>RuleType = []\<rparr>)
             (unlockBy ''user'' ''someone'' ''Access Granted'') (dpsChange ''open'')"
          "uacDoor ''door-9'' ''lock'' ''close''" state0 "[uacDoor ''door-1'' ''lock'' ''open'']" 5]
  by (simp add: exampleApp_def fixedUac_def uacDoor_def door1_def state0_def request_def
        logger_def)

end
